theory Spec2Isabelle
  imports Complex_Main
begin

section \<open>The problem-definition layer, as the solver module reads it\<close>

text \<open>
  The module \<^verbatim>\<open>friendlysam/optimization/solvers.py\<close> receives symbolic expressions of the
  computer-algebra library, looks problem variables up as the expressions' symbols, and
  builds a model of the modelling library out of them. The numbers of the algebra library
  are exact and modelled as reals; Python floats are a type of their own, and the conversion
  \<^verbatim>\<open>float()\<close> from the one to the other is a parameter of the model.
\<close>

datatype domain = Continuous | Integer | Binary

text \<open>
  Modelled from the spec: the \<^verbatim>\<open>Variable\<close> class is not in the module. A variable has an
  identity, optional lower and upper bounds and a domain tag, as in
  \<^verbatim>\<open>Variable(lb=-1, domain=Domain.integer)\<close> of the tests. The identity also serves as
  the key of the canonical sort of symbols.
\<close>

record variable =
  ident :: nat
  lb :: "real option"
  ub :: "real option"
  domain :: domain

datatype func = Abs | Sign

text \<open>
  Symbolic expressions: a fragment of the algebra library's expression trees, with sums,
  products, powers by natural numbers, and two applied functions that are no polynomials.
\<close>

datatype sexpr =
    Num real
  | Symbol variable
  | Add sexpr sexpr
  | Mul sexpr sexpr
  | Pow sexpr nat
  | Apply func sexpr

fun eval_func :: "func \<Rightarrow> real \<Rightarrow> real" where
  "eval_func Abs x = \<bar>x\<bar>"
| "eval_func Sign x = sgn x"

fun eval_sexpr :: "(variable \<Rightarrow> real) \<Rightarrow> sexpr \<Rightarrow> real" where
  "eval_sexpr \<rho> (Num c) = c"
| "eval_sexpr \<rho> (Symbol v) = \<rho> v"
| "eval_sexpr \<rho> (Add a b) = eval_sexpr \<rho> a + eval_sexpr \<rho> b"
| "eval_sexpr \<rho> (Mul a b) = eval_sexpr \<rho> a * eval_sexpr \<rho> b"
| "eval_sexpr \<rho> (Pow a n) = eval_sexpr \<rho> a ^ n"
| "eval_sexpr \<rho> (Apply f a) = eval_func f (eval_sexpr \<rho> a)"

text \<open>\<^verbatim>\<open>expr.atoms(sympy.Symbol)\<close>: the symbols occurring in an expression.\<close>

fun atoms :: "sexpr \<Rightarrow> variable list" where
  "atoms (Num c) = []"
| "atoms (Symbol v) = [v]"
| "atoms (Add a b) = atoms a @ atoms b"
| "atoms (Mul a b) = atoms a @ atoms b"
| "atoms (Pow a n) = atoms a"
| "atoms (Apply f a) = atoms a"

text \<open>\<^verbatim>\<open>sorted(expr.atoms(sympy.Symbol), key=...)\<close>: each symbol once, in canonical order.\<close>

definition sorted_symbols :: "sexpr \<Rightarrow> variable list" where
  "sorted_symbols expr = sort_key ident (remdups (atoms expr))"

text \<open>
  \<^verbatim>\<open>polynomial.terms()\<close>: a list of pairs of an exponent tuple (one exponent per
  generator) and a coefficient. The value of such a term list at an assignment is the sum
  of the coefficients times the powers of the generators.
\<close>

type_synonym poly_terms = "(nat list \<times> real) list"

definition eval_monomial :: "(variable \<Rightarrow> real) \<Rightarrow> variable list \<Rightarrow> nat list \<Rightarrow> real" where
  "eval_monomial \<rho> gens exponents = prod_list (map (\<lambda>(g, e). \<rho> g ^ e) (zip gens exponents))"

definition eval_terms :: "(variable \<Rightarrow> real) \<Rightarrow> variable list \<Rightarrow> poly_terms \<Rightarrow> real" where
  "eval_terms \<rho> gens ts = sum_list (map (\<lambda>(exponents, coeff). coeff * eval_monomial \<rho> gens exponents) ts)"

section \<open>Python floats\<close>

text \<open>A Python float: a finite double, an infinity, or not-a-number.\<close>

datatype pyfloat = Finite real | PosInf | NegInf | NaN

text \<open>
  Addition and multiplication of floats, over a rounding of the exact result to a float.
  With the rounding of doubles they are Python's \<^verbatim>\<open>+\<close> and \<^verbatim>\<open>*\<close> on floats; with
  \<open>Finite\<close> they are exact arithmetic, extended to the infinities and not-a-number.
  Adding zero returns the other number as it is.
\<close>

fun fadd :: "(real \<Rightarrow> pyfloat) \<Rightarrow> pyfloat \<Rightarrow> pyfloat \<Rightarrow> pyfloat" where
  "fadd rnd (Finite a) (Finite b) =
     (if a = 0 then Finite b else if b = 0 then Finite a else rnd (a + b))"
| "fadd rnd NaN y = NaN"
| "fadd rnd x NaN = NaN"
| "fadd rnd PosInf NegInf = NaN"
| "fadd rnd NegInf PosInf = NaN"
| "fadd rnd PosInf y = PosInf"
| "fadd rnd x PosInf = PosInf"
| "fadd rnd NegInf y = NegInf"
| "fadd rnd x NegInf = NegInf"

fun fmul_inf :: "bool \<Rightarrow> real \<Rightarrow> pyfloat" where
  "fmul_inf positive b =
     (if b = 0 then NaN else if (0 < b) = positive then PosInf else NegInf)"

fun fmul :: "(real \<Rightarrow> pyfloat) \<Rightarrow> pyfloat \<Rightarrow> pyfloat \<Rightarrow> pyfloat" where
  "fmul rnd (Finite a) (Finite b) = rnd (a * b)"
| "fmul rnd NaN y = NaN"
| "fmul rnd x NaN = NaN"
| "fmul rnd PosInf (Finite b) = fmul_inf True b"
| "fmul rnd (Finite a) PosInf = fmul_inf True a"
| "fmul rnd NegInf (Finite b) = fmul_inf False b"
| "fmul rnd (Finite a) NegInf = fmul_inf False a"
| "fmul rnd PosInf PosInf = PosInf"
| "fmul rnd NegInf NegInf = PosInf"
| "fmul rnd PosInf NegInf = NegInf"
| "fmul rnd NegInf PosInf = NegInf"

text \<open>Comparisons of floats: every comparison with not-a-number is false.\<close>

fun fle :: "pyfloat \<Rightarrow> pyfloat \<Rightarrow> bool" where
  "fle NaN y = False"
| "fle x NaN = False"
| "fle (Finite a) (Finite b) = (a \<le> b)"
| "fle NegInf y = True"
| "fle x PosInf = True"
| "fle x y = False"

fun feq :: "pyfloat \<Rightarrow> pyfloat \<Rightarrow> bool" where
  "feq NaN y = False"
| "feq x NaN = False"
| "feq x y = (x = y)"

section \<open>The libraries behind the module\<close>

text \<open>
  Three operations of the module belong to the algebra library and to Python and are
  parameters of the model:
  \<^item> \<^verbatim>\<open>expr.as_poly(*symbols)\<close>: a polynomial, or \<open>None\<close> when the expression is no
    polynomial in the generators;
  \<^item> \<^verbatim>\<open>a - b\<close> on expressions, which builds the difference and simplifies it;
  \<^item> \<^verbatim>\<open>float(c)\<close> of a number of the algebra library: the float nearest to it, an
    infinity when it is beyond the range of floats. The same rounding is the one of
    Python's own arithmetic on floats.
\<close>

type_synonym as_poly_fun = "sexpr \<Rightarrow> variable list \<Rightarrow> poly_terms option"

record library =
  as_poly :: as_poly_fun
  sub :: "sexpr \<Rightarrow> sexpr \<Rightarrow> sexpr"
  float :: "real \<Rightarrow> pyfloat"

text \<open>
  What the algebra library promises of a returned polynomial is that it represents the
  expression: every exponent tuple has one entry per generator, no exponent tuple is
  listed twice, and the term list has the value of the expression at every assignment.
\<close>

definition represents :: "variable list \<Rightarrow> poly_terms \<Rightarrow> sexpr \<Rightarrow> bool" where
  "represents gens ts expr \<longleftrightarrow>
     list_all (\<lambda>(exponents, coeff). length exponents = length gens) ts \<and>
     distinct (map fst ts) \<and>
     (\<forall>\<rho>. eval_terms \<rho> gens ts = eval_sexpr \<rho> expr)"

definition as_poly_sound :: "library \<Rightarrow> sexpr \<Rightarrow> bool" where
  "as_poly_sound lib expr \<longleftrightarrow>
     (\<forall>ts. as_poly lib expr (sorted_symbols expr) = Some ts \<longrightarrow>
           represents (sorted_symbols expr) ts expr)"

text \<open>
  An expression is reducible to a polynomial over its variables when it has no variables
  (a constant) or the library returns a polynomial for it.
\<close>

definition reducible :: "library \<Rightarrow> sexpr \<Rightarrow> bool" where
  "reducible lib expr \<longleftrightarrow>
     sorted_symbols expr = [] \<or> as_poly lib expr (sorted_symbols expr) \<noteq> None"

text \<open>
  The numbers of an expression that the translation hands to \<^verbatim>\<open>float()\<close>: the value of
  an expression without symbols, the coefficients of the polynomial otherwise.
\<close>

definition coefficients :: "library \<Rightarrow> sexpr \<Rightarrow> real list" where
  "coefficients lib expr =
     (if sorted_symbols expr = [] then [eval_sexpr (\<lambda>_. 0) expr]
      else (case as_poly lib expr (sorted_symbols expr) of
              None \<Rightarrow> []
            | Some ts \<Rightarrow> map snd ts))"

text \<open>A conversion is within the relative error \<open>\<epsilon>\<close> at a number: finite and that close.\<close>

definition rounds_within :: "(real \<Rightarrow> pyfloat) \<Rightarrow> real \<Rightarrow> real \<Rightarrow> bool" where
  "rounds_within fl \<epsilon> c =
     (case fl c of Finite c' \<Rightarrow> \<bar>c' - c\<bar> \<le> \<epsilon> * \<bar>c\<bar> | _ \<Rightarrow> False)"

text \<open>
  The size of an expression at an assignment: the sum of the absolute values of its
  monomials, or the absolute value of an expression without symbols.
\<close>

definition magnitude :: "library \<Rightarrow> (variable \<Rightarrow> real) \<Rightarrow> sexpr \<Rightarrow> real" where
  "magnitude lib \<rho> expr =
     (if sorted_symbols expr = [] then \<bar>eval_sexpr \<rho> expr\<bar>
      else (case as_poly lib expr (sorted_symbols expr) of
              None \<Rightarrow> 0
            | Some ts \<Rightarrow>
                sum_list (map (\<lambda>(exponents, coeff).
                                 \<bar>coeff\<bar> * \<bar>eval_monomial \<rho> (sorted_symbols expr) exponents\<bar>) ts)))"

section \<open>Relations and constraints handed to the solver\<close>

text \<open>The relational classes of the algebra library (all of them are \<^verbatim>\<open>sympy.Rel\<close>).\<close>

datatype relclass =
  LessThan | GreaterThan | Equality | StrictGreaterThan | StrictLessThan | Unequality

text \<open>
  The objects \<^verbatim>\<open>_add_constraint\<close> and \<^verbatim>\<open>_make_pyomo_relation\<close> tell apart with
  \<^verbatim>\<open>isinstance\<close>: a relation with its two arguments, a \<^verbatim>\<open>RelConstraint\<close> with its
  \<^verbatim>\<open>expr\<close> attribute, the two ordered-set constraints, and any other object (given by
  the name of its class).
\<close>

datatype pyobj =
    Rel relclass sexpr sexpr
  | RelConstraint pyobj
  | SOS1Constraint "variable list"
  | SOS2Constraint "variable list"
  | Object string

datatype pyclass =
  ClassRel relclass | ClassRelConstraint | ClassSOS1Constraint | ClassSOS2Constraint | ClassNamed string

fun type_of :: "pyobj \<Rightarrow> pyclass" where
  "type_of (Rel k a b) = ClassRel k"
| "type_of (RelConstraint e) = ClassRelConstraint"
| "type_of (SOS1Constraint vs) = ClassSOS1Constraint"
| "type_of (SOS2Constraint vs) = ClassSOS2Constraint"
| "type_of (Object n) = ClassNamed n"

section \<open>Errors\<close>

text \<open>
  The status values of \<^verbatim>\<open>pyomo.opt.SolutionStatus\<close>.
\<close>

datatype solution_status =
  bestSoFar | error | feasible | globallyOptimal | infeasible | locallyOptimal | optimal
  | other | stoppedByLimit | unbounded | unknown | unsure

text \<open>
  An exception is a value. A message built with \<^verbatim>\<open>str.format\<close> is kept as the format
  string and its arguments.
\<close>

datatype fmt_arg =
  ArgExpr sexpr | ArgObj pyobj | ArgType pyclass | ArgStatus solution_status
  | ArgVar variable | ArgStr string

datatype error =
    SolverNotAvailableError
  | SolverError string "fmt_arg list"
  | PyomoExpressionError string "fmt_arg list"
  | ValueError string "fmt_arg list"
  | KeyError fmt_arg
  | TypeError string
  | NotImplementedError
  | LibraryError string

section \<open>Expressions of the modelling library\<close>

text \<open>
  A value of the arithmetic on solver variables: a Python float or an expression tree
  over variable objects. A variable object is referred to by the counter value under
  which \<^verbatim>\<open>_add_var\<close> attached it to the model.
\<close>

datatype pexpr = PNum pyfloat | PVar nat | PSum pexpr pexpr | PProd pexpr pexpr

fun is_number :: "pexpr \<Rightarrow> bool" where
  "is_number (PNum c) = True"
| "is_number p = False"

text \<open>
  The value of an expression at an assignment of the solver variables, in exact
  arithmetic; an infinite coefficient makes it infinite or not-a-number.
\<close>

fun eval_pexpr :: "(nat \<Rightarrow> real) \<Rightarrow> pexpr \<Rightarrow> pyfloat" where
  "eval_pexpr \<sigma> (PNum c) = c"
| "eval_pexpr \<sigma> (PVar x) = Finite (\<sigma> x)"
| "eval_pexpr \<sigma> (PSum a b) = fadd Finite (eval_pexpr \<sigma> a) (eval_pexpr \<sigma> b)"
| "eval_pexpr \<sigma> (PProd a b) = fmul Finite (eval_pexpr \<sigma> a) (eval_pexpr \<sigma> b)"

text \<open>
  \<^verbatim>\<open>+\<close> and \<^verbatim>\<open>*\<close>: two floats combine to a float, with Python's rounding \<open>fl\<close>;
  anything else builds a tree.
\<close>

fun py_add :: "(real \<Rightarrow> pyfloat) \<Rightarrow> pexpr \<Rightarrow> pexpr \<Rightarrow> pexpr" where
  "py_add fl (PNum a) (PNum b) = PNum (fadd fl a b)"
| "py_add fl a b = PSum a b"

fun py_mul :: "(real \<Rightarrow> pyfloat) \<Rightarrow> pexpr \<Rightarrow> pexpr \<Rightarrow> pexpr" where
  "py_mul fl (PNum a) (PNum b) = PNum (fmul fl a b)"
| "py_mul fl a b = PProd a b"

text \<open>\<^verbatim>\<open>reduce(operator.mul, factors)\<close>: raises on an empty sequence.\<close>

fun reduce_mul :: "(real \<Rightarrow> pyfloat) \<Rightarrow> pexpr list \<Rightarrow> error + pexpr" where
  "reduce_mul fl [] = Inl (TypeError ''reduce() of empty sequence with no initial value'')"
| "reduce_mul fl (f # fs) = Inr (foldl (py_mul fl) f fs)"

text \<open>\<^verbatim>\<open>sum(terms)\<close>: starts from 0 and adds from the left.\<close>

definition py_sum :: "(real \<Rightarrow> pyfloat) \<Rightarrow> pexpr list \<Rightarrow> pexpr" where
  "py_sum fl terms = foldl (py_add fl) (PNum (Finite 0)) terms"

text \<open>
  A comparison of two such values: a Python Boolean when both are floats, a relational
  expression of the modelling library otherwise.
\<close>

datatype prel = PBool bool | PLe pexpr pexpr | PGe pexpr pexpr | PEq pexpr pexpr

fun py_le :: "pexpr \<Rightarrow> pexpr \<Rightarrow> prel" where
  "py_le (PNum a) (PNum b) = PBool (fle a b)"
| "py_le a b = PLe a b"

fun py_ge :: "pexpr \<Rightarrow> pexpr \<Rightarrow> prel" where
  "py_ge (PNum a) (PNum b) = PBool (fle b a)"
| "py_ge a b = PGe a b"

fun py_eq :: "pexpr \<Rightarrow> pexpr \<Rightarrow> prel" where
  "py_eq (PNum a) (PNum b) = PBool (feq a b)"
| "py_eq a b = PEq a b"

section \<open>Polynomial translation: \<^verbatim>\<open>_make_pyomo_poly\<close>\<close>

text \<open>\<^verbatim>\<open>[self._pyomo_variables[s] for s in symbols]\<close>: a missing key raises.\<close>

fun lookup_all :: "(variable \<rightharpoonup> nat) \<Rightarrow> variable list \<Rightarrow> error + pexpr list" where
  "lookup_all pyomo_variables [] = Inr []"
| "lookup_all pyomo_variables (s # symbols) =
     (case pyomo_variables s of
        None \<Rightarrow> Inl (KeyError (ArgVar s))
      | Some x \<Rightarrow>
          (case lookup_all pyomo_variables symbols of
             Inl e \<Rightarrow> Inl e
           | Inr xs \<Rightarrow> Inr (PVar x # xs)))"

text \<open>
  The inner loop: for every pair of a variable and a nonzero exponent, the variable is
  appended to the factors as many times as the exponent says.
\<close>

definition factors_of :: "pexpr list \<Rightarrow> nat list \<Rightarrow> pexpr list" where
  "factors_of variables exponents =
     concat (map (\<lambda>(base, exponent). replicate exponent base)
                 (filter (\<lambda>(a, e). e \<noteq> 0) (zip variables exponents)))"

text \<open>
  The body of the loop over \<^verbatim>\<open>polynomial.terms()\<close>: the coefficient is converted with
  \<^verbatim>\<open>float(coeff)\<close>, then the term for the monomial is appended.
\<close>

definition make_term :: "(real \<Rightarrow> pyfloat) \<Rightarrow> pexpr list \<Rightarrow> nat list \<times> real \<Rightarrow> error + pexpr" where
  "make_term fl variables t =
     (case t of (exponents, c) \<Rightarrow>
        let coeff = fl c in
        if list_all (\<lambda>e. e = 0) exponents then Inr (PNum coeff)
        else (case reduce_mul fl (factors_of variables exponents) of
                Inl e \<Rightarrow> Inl e
              | Inr product \<Rightarrow> Inr (py_mul fl (PNum coeff) product)))"

fun make_terms :: "(real \<Rightarrow> pyfloat) \<Rightarrow> pexpr list \<Rightarrow> poly_terms \<Rightarrow> error + pexpr list" where
  "make_terms fl variables [] = Inr []"
| "make_terms fl variables (t # ts) =
     (case make_term fl variables t of
        Inl e \<Rightarrow> Inl e
      | Inr x \<Rightarrow>
          (case make_terms fl variables ts of
             Inl e \<Rightarrow> Inl e
           | Inr xs \<Rightarrow> Inr (x # xs)))"

text \<open>
  \<^verbatim>\<open>float(expr)\<close> of an expression without symbols converts its numeric value.
\<close>

definition make_pyomo_poly :: "library \<Rightarrow> (variable \<rightharpoonup> nat) \<Rightarrow> sexpr \<Rightarrow> error + pexpr" where
  "make_pyomo_poly lib pyomo_variables expr =
     (let symbols = sorted_symbols expr in
      case lookup_all pyomo_variables symbols of
        Inl e \<Rightarrow> Inl e
      | Inr variables \<Rightarrow>
          if length symbols = 0 then Inr (PNum (float lib (eval_sexpr (\<lambda>_. 0) expr)))
          else (case as_poly lib expr symbols of
                  None \<Rightarrow> Inl (ValueError ''{} is not a sympy polynomial'' [ArgExpr expr])
                | Some polynomial \<Rightarrow>
                    (case make_terms (float lib) variables polynomial of
                       Inl e \<Rightarrow> Inl e
                     | Inr terms \<Rightarrow> Inr (py_sum (float lib) terms))))"

section \<open>Relation translation: \<^verbatim>\<open>_make_pyomo_relation\<close>\<close>

definition compare_to_zero ::
  "(pexpr \<Rightarrow> pexpr \<Rightarrow> prel) \<Rightarrow> error + pexpr \<Rightarrow> error + prel" where
  "compare_to_zero cmp r =
     (case r of Inl e \<Rightarrow> Inl e | Inr p \<Rightarrow> Inr (cmp p (PNum (Finite 0))))"

fun make_pyomo_relation :: "library \<Rightarrow> (variable \<rightharpoonup> nat) \<Rightarrow> pyobj \<Rightarrow> error + prel" where
  "make_pyomo_relation lib pv (Rel LessThan a b) =
     compare_to_zero py_le (make_pyomo_poly lib pv (sub lib a b))"
| "make_pyomo_relation lib pv (Rel GreaterThan a b) =
     compare_to_zero py_ge (make_pyomo_poly lib pv (sub lib a b))"
| "make_pyomo_relation lib pv (Rel Equality a b) =
     compare_to_zero py_eq (make_pyomo_poly lib pv (sub lib a b))"
| "make_pyomo_relation lib pv (Rel StrictGreaterThan a b) =
     Inl (PyomoExpressionError ''Strict inequalities are not allowed.'' [])"
| "make_pyomo_relation lib pv (Rel StrictLessThan a b) =
     Inl (PyomoExpressionError ''Strict inequalities are not allowed.'' [])"
| "make_pyomo_relation lib pv expr =
     Inl (PyomoExpressionError ''Expression \"{}\" ({}) cannot be translated.''
            [ArgObj expr, ArgType (type_of expr)])"

section \<open>The model under construction and the solver adapter\<close>

datatype pdomain = pyomo_Reals | pyomo_Integers | pyomo_Binary

text \<open>A variable object of the modelling library: bounds, domain and, after a solve, a value.\<close>

record pvar =
  var_lb :: "real option"
  var_ub :: "real option"
  var_domain :: pdomain
  var_value :: "real option"

text \<open>\<^verbatim>\<open>pyomo.environ.Var()\<close>, without arguments: no bounds, the default domain, no value.\<close>

definition Var :: pvar where
  "Var = \<lparr>var_lb = None, var_ub = None, var_domain = pyomo_Reals, var_value = None\<rparr>"

datatype sense = minimize | maximize

datatype psense = pyomo_minimize | pyomo_maximize

text \<open>
  The model object: the components attached with \<^verbatim>\<open>setattr\<close> under the names
  \<^verbatim>\<open>v1, v2, ...\<close> and \<^verbatim>\<open>c1, c2, ...\<close> (keyed by the number in the name), and \<^verbatim>\<open>obj\<close>.
\<close>

record pmodel =
  vars :: "nat \<rightharpoonup> pvar"
  obj :: "(pexpr \<times> psense) option"
  cons :: "nat \<rightharpoonup> prel"

definition ConcreteModel :: pmodel where
  "ConcreteModel = \<lparr>vars = Map.empty, obj = None, cons = Map.empty\<rparr>"

text \<open>The attributes \<^verbatim>\<open>solve\<close> sets on the adapter and its helpers update.\<close>

record solve_state =
  constraint_counter :: nat
  var_counter :: nat
  model :: pmodel
  pyomo_variables :: "variable \<rightharpoonup> nat"

text \<open>
  Modelled from the spec: the \<^verbatim>\<open>Problem\<close> class is not in the module. These are the four
  attributes \<^verbatim>\<open>solve\<close> reads; the variable and constraint collections are given in
  their order of iteration.
\<close>

record problem =
  variables :: "variable list"
  objective :: sexpr
  sense :: sense
  constraints :: "pyobj list"

definition add_var :: "solve_state \<Rightarrow> solve_state \<times> nat" where
  "add_var st =
     (let n = var_counter st + 1 in
      (st\<lparr>var_counter := n, model := (model st)\<lparr>vars := (vars (model st))(n \<mapsto> Var)\<rparr>\<rparr>, n))"

definition get_constraint_name :: "solve_state \<Rightarrow> solve_state \<times> nat" where
  "get_constraint_name st =
     (let n = constraint_counter st + 1 in (st\<lparr>constraint_counter := n\<rparr>, n))"

text \<open>\<^verbatim>\<open>{v: self._add_var() for v in problem.variables}\<close>\<close>

fun bind_variables ::
  "solve_state \<Rightarrow> (variable \<rightharpoonup> nat) \<Rightarrow> variable list \<Rightarrow> solve_state \<times> (variable \<rightharpoonup> nat)" where
  "bind_variables st d [] = (st, d)"
| "bind_variables st d (v # vs) =
     (case add_var st of (st', x) \<Rightarrow> bind_variables st' (d(v \<mapsto> x)) vs)"

text \<open>
  \<^verbatim>\<open>pyomo.environ.Constraint(expr=expr)\<close>, attached to the model: the modelling library
  refuses an expression that is a plain Boolean with a \<^verbatim>\<open>ValueError\<close> (its message is the
  library's). This is the exception the handler in \<^verbatim>\<open>_add_constraint\<close> prints and
  raises again.
\<close>

fun Constraint :: "prel \<Rightarrow> error + prel" where
  "Constraint (PBool b) = Inl (ValueError ''trivial Boolean constraint'' [])"
| "Constraint expr = Inr expr"

fun add_constraint :: "library \<Rightarrow> solve_state \<Rightarrow> pyobj \<Rightarrow> error + solve_state" where
  "add_constraint lib st original =
     (let c = (case original of RelConstraint e \<Rightarrow> e | _ \<Rightarrow> original) in
      case c of
        Rel k a b \<Rightarrow>
          (case make_pyomo_relation lib (pyomo_variables st) c of
             Inl e \<Rightarrow> Inl e
           | Inr expr \<Rightarrow>
               (case get_constraint_name st of
                  (st', name) \<Rightarrow>
                    (case Constraint expr of
                       Inl e \<Rightarrow> Inl e
                     | Inr con \<Rightarrow>
                         Inr (st'\<lparr>model := (model st')\<lparr>cons := (cons (model st'))(name \<mapsto> con)\<rparr>\<rparr>))))
      | SOS1Constraint vs \<Rightarrow> Inl NotImplementedError
      | SOS2Constraint vs \<Rightarrow> Inl NotImplementedError
      | _ \<Rightarrow> Inl NotImplementedError)"

text \<open>
  \<^verbatim>\<open>map(self._add_constraint, problem.constraints)\<close>: the module is Python 2, where
  \<^verbatim>\<open>map\<close> calls the function on every element at once; the first exception ends it.
\<close>

fun add_constraints :: "library \<Rightarrow> solve_state \<Rightarrow> pyobj list \<Rightarrow> error + solve_state" where
  "add_constraints lib st [] = Inr st"
| "add_constraints lib st (c # cs) =
     (case add_constraint lib st c of
        Inl e \<Rightarrow> Inl e
      | Inr st' \<Rightarrow> add_constraints lib st' cs)"

fun sense_translation :: "sense \<Rightarrow> psense" where
  "sense_translation minimize = pyomo_minimize"
| "sense_translation maximize = pyomo_maximize"

definition set_objective :: "library \<Rightarrow> solve_state \<Rightarrow> problem \<Rightarrow> error + solve_state" where
  "set_objective lib st problem =
     (case make_pyomo_poly lib (pyomo_variables st) (objective problem) of
        Inl e \<Rightarrow> Inl e
      | Inr expr \<Rightarrow>
          Inr (st\<lparr>model := (model st)\<lparr>obj := Some (expr, sense_translation (sense problem))\<rparr>\<rparr>))"

text \<open>
  What the external solver returns: \<^verbatim>\<open>result.Solution.Status\<close> and the values of the
  model's variables, by the number in their name.
\<close>

record solve_result =
  status :: solution_status
  var_values :: "nat \<rightharpoonup> real"

text \<open>\<^verbatim>\<open>self._model.load(result)\<close>: stores the returned values in the variable objects.\<close>

definition load :: "pmodel \<Rightarrow> solve_result \<Rightarrow> pmodel" where
  "load m result =
     m\<lparr>vars := (\<lambda>n. case vars m n of
                       None \<Rightarrow> None
                     | Some pv \<Rightarrow>
                         Some (case var_values result n of
                                 None \<Rightarrow> pv
                               | Some x \<Rightarrow> pv\<lparr>var_value := Some x\<rparr>))\<rparr>"

text \<open>
  \<^verbatim>\<open>{key: variable.value for key, variable in self._pyomo_variables.items()}\<close>: the value
  of a key is the \<^verbatim>\<open>value\<close> attribute of its variable object, which may be \<^verbatim>\<open>None\<close>.
\<close>

definition solution :: "pmodel \<Rightarrow> (variable \<rightharpoonup> nat) \<Rightarrow> (variable \<rightharpoonup> real option)" where
  "solution m d =
     (\<lambda>key. case d key of
               None \<Rightarrow> None
             | Some x \<Rightarrow> (case vars m x of None \<Rightarrow> None | Some pv \<Rightarrow> Some (var_value pv)))"

text \<open>
  A solver adapter holds the handle the solver factory returned. The external solve,
  \<^verbatim>\<open>self._solver.solve(self._model)\<close>, is the parameter \<open>run\<close>: it returns a result or
  raises an exception of the solver library. \<^verbatim>\<open>self._model.preprocess()\<close> changes
  nothing the module reads and is left out.
\<close>

datatype 'h pyomo_solver = PyomoSolver (solver: 'h)

definition initial_state :: solve_state where
  "initial_state =
     \<lparr>constraint_counter = 0, var_counter = 0, model = ConcreteModel, pyomo_variables = Map.empty\<rparr>"

text \<open>The model building part of \<^verbatim>\<open>solve\<close>, up to the call of the external solver.\<close>

definition build_model :: "library \<Rightarrow> problem \<Rightarrow> error + solve_state" where
  "build_model lib problem =
     (case bind_variables initial_state Map.empty (variables problem) of
        (st1, d) \<Rightarrow>
          (case set_objective lib (st1\<lparr>pyomo_variables := d\<rparr>) problem of
             Inl e \<Rightarrow> Inl e
           | Inr st2 \<Rightarrow> add_constraints lib st2 (constraints problem)))"

definition solve ::
  "library \<Rightarrow> ('h \<Rightarrow> pmodel \<Rightarrow> string + solve_result) \<Rightarrow> 'h pyomo_solver \<Rightarrow> problem
     \<Rightarrow> error + (variable \<rightharpoonup> real option)" where
  "solve lib run self problem =
     (case build_model lib problem of
        Inl e \<Rightarrow> Inl e
      | Inr st \<Rightarrow>
          (case run (solver self) (model st) of
             Inl x \<Rightarrow> Inl (LibraryError x)
           | Inr result \<Rightarrow>
               if \<not> (status result = optimal)
               then Inl (SolverError (''pyomo solution status is '{0}'' @ [CHR 0x27])
                           [ArgStatus (status result)])
               else Inr (solution (load (model st) result) (pyomo_variables st))))"

section \<open>Solver resolution: \<^verbatim>\<open>get_solver\<close>\<close>

text \<open>
  \<^verbatim>\<open>SolverFactory(solver, **kwargs)\<close> belongs to the solver library and is a parameter:
  given a name and keyword arguments it returns a handle or raises an exception of that
  library (given by its name). The constructor of the adapter calls it and does nothing else.
\<close>

type_synonym 'h solver_factory = "string \<Rightarrow> (string \<times> string) list \<Rightarrow> string + 'h"

definition PyomoSolver_init ::
  "'h solver_factory \<Rightarrow> string \<Rightarrow> (string \<times> string) list \<Rightarrow> error + 'h pyomo_solver" where
  "PyomoSolver_init SolverFactory name kwargs =
     (case SolverFactory name kwargs of
        Inl x \<Rightarrow> Inl (LibraryError x)
      | Inr h \<Rightarrow> Inr (PyomoSolver h))"

definition DEFAULT_SOLVER_ORDER :: "string list" where
  "DEFAULT_SOLVER_ORDER = [''gurobi'', ''cbc'']"

definition solver_funcs ::
  "'h solver_factory \<Rightarrow> (string \<rightharpoonup> (unit \<Rightarrow> error + 'h pyomo_solver))" where
  "solver_funcs SolverFactory =
     [''gurobi'' \<mapsto> (\<lambda>_. PyomoSolver_init SolverFactory ''gurobi'' [(''solver_io'', ''python'')]),
      ''cbc'' \<mapsto> (\<lambda>_. PyomoSolver_init SolverFactory ''cbc'' [(''solver_io'', ''asl'')])]"

text \<open>
  The loop of \<^verbatim>\<open>get_solver\<close>, over any table of constructors: a missing name raises
  \<^verbatim>\<open>KeyError\<close>, \<^verbatim>\<open>SolverNotAvailableError\<close> is caught and the loop goes on, any other
  exception is passed on, and when the names are used up the function returns \<^verbatim>\<open>None\<close>.
\<close>

fun get_solver_loop ::
  "(string \<rightharpoonup> (unit \<Rightarrow> error + 's)) \<Rightarrow> string list \<Rightarrow> error + 's option" where
  "get_solver_loop funcs [] = Inr None"
| "get_solver_loop funcs (name # names) =
     (case funcs name of
        None \<Rightarrow> Inl (KeyError (ArgStr name))
      | Some f \<Rightarrow>
          (case f () of
             Inr s \<Rightarrow> Inr (Some s)
           | Inl SolverNotAvailableError \<Rightarrow> get_solver_loop funcs names
           | Inl e \<Rightarrow> Inl e))"

text \<open>\<open>solver_order\<close> is the module's variable of that name when the call is made.\<close>

definition get_solver ::
  "'h solver_factory \<Rightarrow> string list \<Rightarrow> string list \<Rightarrow> error + 'h pyomo_solver option" where
  "get_solver SolverFactory solver_order names =
     get_solver_loop (solver_funcs SolverFactory)
       (if length names = 0 then solver_order else names)"

section \<open>A reference polynomial decomposition\<close>

text \<open>
  An instance of the library parameter \<open>as_poly\<close>, by expansion: sums are concatenated,
  products multiplied out, powers by natural numbers unfolded; an applied function or a
  symbol outside the generators gives \<open>None\<close>. It is used to run the translation on
  concrete expressions.
\<close>

definition poly_mul :: "poly_terms \<Rightarrow> poly_terms \<Rightarrow> poly_terms" where
  "poly_mul p q =
     concat (map (\<lambda>(es, c). map (\<lambda>(fs, d). (map2 (+) es fs, c * d)) q) p)"

fun poly_pow :: "nat \<Rightarrow> poly_terms \<Rightarrow> nat \<Rightarrow> poly_terms" where
  "poly_pow k p 0 = [(replicate k 0, 1)]"
| "poly_pow k p (Suc n) = poly_mul p (poly_pow k p n)"

fun expand :: "variable list \<Rightarrow> sexpr \<Rightarrow> poly_terms option" where
  "expand gens (Num c) = Some [(replicate (length gens) 0, c)]"
| "expand gens (Symbol v) =
     (if v \<in> set gens then Some [(map (\<lambda>g. if g = v then 1 else 0) gens, 1)] else None)"
| "expand gens (Add a b) =
     (case expand gens a of
        None \<Rightarrow> None
      | Some p \<Rightarrow> (case expand gens b of None \<Rightarrow> None | Some q \<Rightarrow> Some (p @ q)))"
| "expand gens (Mul a b) =
     (case expand gens a of
        None \<Rightarrow> None
      | Some p \<Rightarrow> (case expand gens b of None \<Rightarrow> None | Some q \<Rightarrow> Some (poly_mul p q)))"
| "expand gens (Pow a n) =
     (case expand gens a of None \<Rightarrow> None | Some p \<Rightarrow> Some (poly_pow (length gens) p n))"
| "expand gens (Apply f a) = None"

definition expand_as_poly :: as_poly_fun where
  "expand_as_poly expr gens = expand gens expr"

text \<open>A difference that is built as the tree \<^verbatim>\<open>Add(a, Mul(-1, b))\<close> and not simplified.\<close>

definition tree_sub :: "sexpr \<Rightarrow> sexpr \<Rightarrow> sexpr" where
  "tree_sub a b = Add a (Mul (Num (- 1)) b)"

text \<open>
  A conversion to floats that is exact inside the range of doubles and infinite outside
  of it: it keeps the overflow of \<^verbatim>\<open>float()\<close> and leaves the rounding out.
\<close>

definition range_float :: "real \<Rightarrow> pyfloat" where
  "range_float c =
     (if \<bar>c\<bar> < 2 ^ 1024 then Finite c else if 0 < c then PosInf else NegInf)"

definition sample_lib :: library where
  "sample_lib = \<lparr>as_poly = expand_as_poly, sub = tree_sub, float = range_float\<rparr>"

section \<open>Sample variables, problems and environments\<close>

definition var_x :: variable where
  "var_x = \<lparr>ident = 1, lb = Some (- 1), ub = None, domain = Integer\<rparr>"

definition var_y :: variable where
  "var_y = \<lparr>ident = 2, lb = None, ub = Some 10, domain = Continuous\<rparr>"

text \<open>\<open>3 x\<^sup>2 y + 2 y + 7\<close>\<close>

definition sample_poly :: sexpr where
  "sample_poly =
     Add (Add (Mul (Mul (Num 3) (Pow (Symbol var_x) 2)) (Symbol var_y)) (Mul (Num 2) (Symbol var_y)))
         (Num 7)"

definition sample_binding :: "variable \<rightharpoonup> nat" where
  "sample_binding = [var_x \<mapsto> 1, var_y \<mapsto> 2]"

text \<open>The constraints \<open>x \<ge> 5\<close> and \<open>x \<le> 1\<close>, with the objective \<open>x\<close>.\<close>

definition infeasible_problem :: problem where
  "infeasible_problem =
     \<lparr>variables = [var_x], objective = Symbol var_x, sense = minimize,
      constraints = [RelConstraint (Rel GreaterThan (Symbol var_x) (Num 5)),
                     RelConstraint (Rel LessThan (Symbol var_x) (Num 1))]\<rparr>"

text \<open>Minimise \<open>x + y\<close> subject to \<open>x \<ge> 5\<close> and \<open>y = 1\<close>.\<close>

definition feasible_problem :: problem where
  "feasible_problem =
     \<lparr>variables = [var_x, var_y], objective = Add (Symbol var_x) (Symbol var_y), sense = minimize,
      constraints = [RelConstraint (Rel GreaterThan (Symbol var_x) (Num 5)),
                     Rel Equality (Symbol var_y) (Num 1)]\<rparr>"

text \<open>An external solver that reports a given status and given values for every model.\<close>

definition run_reporting ::
  "solution_status \<Rightarrow> (nat \<rightharpoonup> real) \<Rightarrow> unit \<Rightarrow> pmodel \<Rightarrow> string + solve_result" where
  "run_reporting st vals h m = Inr \<lparr>status = st, var_values = vals\<rparr>"

text \<open>
  A solver library in which \<^verbatim>\<open>SolverFactory\<close> returns, for every name, a handle that
  knows whether its backend is installed.
\<close>

datatype opt_solver =
  OptSolver (solver_name: string) (options: "(string \<times> string) list") (available: bool)

definition factory_where :: "(string \<Rightarrow> bool) \<Rightarrow> opt_solver solver_factory" where
  "factory_where installed name kwargs = Inr (OptSolver name kwargs (installed name))"

section \<open>The specification's reading of metadata preservation\<close>

fun domain_translation :: "domain \<Rightarrow> pdomain" where
  "domain_translation Continuous = pyomo_Reals"
| "domain_translation Integer = pyomo_Integers"
| "domain_translation Binary = pyomo_Binary"

text \<open>
  From the specification: a created solver variable preserves the abstract variable's
  declared lower and upper bounds and its domain tag.
\<close>

definition preserves_metadata :: "variable \<Rightarrow> pvar \<Rightarrow> bool" where
  "preserves_metadata v pv \<longleftrightarrow>
     var_lb pv = lb v \<and> var_ub pv = ub v \<and> var_domain pv = domain_translation (domain v)"

definition wf_terms :: "nat \<Rightarrow> poly_terms \<Rightarrow> bool" where
  "wf_terms k ts = list_all (\<lambda>(es, c). length es = k) ts"

text \<open>
  The scenario of \<^verbatim>\<open>test_simple_SOS1\<close>: four integer variables with lower bound
  \<open>-1\<close>, an ordered-set constraint of type 1 over them, the constraint that they sum to 3,
  and a weighted sum to minimise.
\<close>

definition test_vars :: "variable list" where
  "test_vars = map (\<lambda>i. \<lparr>ident = i, lb = Some (- 1), ub = None, domain = Integer\<rparr>) [0, 1, 2, 3]"

definition py_sum_expr :: "sexpr list \<Rightarrow> sexpr" where
  "py_sum_expr es = foldl Add (Num 0) es"

definition test_simple_SOS1_problem :: problem where
  "test_simple_SOS1_problem =
     \<lparr>variables = test_vars,
      objective = py_sum_expr (map2 (\<lambda>v w. Mul (Symbol v) (Num w)) test_vars [1, 1, 0.5, 1]),
      sense = minimize,
      constraints = [SOS1Constraint test_vars,
                     RelConstraint (Rel Equality (py_sum_expr (map Symbol test_vars)) (Num 3))]\<rparr>"

definition abs_minus_one :: sexpr where
  "abs_minus_one = tree_sub (Apply Abs (Symbol var_x)) (Num 1)"

text \<open>\<open>10\<^sup>4\<^sup>0\<^sup>0 x\<close>: a coefficient beyond the range of floats.\<close>

definition huge_coefficient :: sexpr where
  "huge_coefficient = Mul (Num (10 ^ 400)) (Symbol var_x)"

text \<open>The real number of a finite float, and a term list with its coefficients converted.\<close>

fun the_finite :: "pyfloat \<Rightarrow> real" where
  "the_finite (Finite c) = c"
| "the_finite x = 0"

definition converted :: "(real \<Rightarrow> pyfloat) \<Rightarrow> poly_terms \<Rightarrow> poly_terms" where
  "converted fl ts = map (\<lambda>(exponents, coeff). (exponents, the_finite (fl coeff))) ts"

definition nonpolynomial_problem :: problem where
  "nonpolynomial_problem =
     \<lparr>variables = [var_x], objective = abs_minus_one, sense = minimize,
      constraints = [Rel LessThan (Apply Abs (Symbol var_x)) (Num 1)]\<rparr>"

section \<open>Evaluation of translated expressions\<close>

lemma fadd_exact: "fadd Finite (Finite a) (Finite b) = Finite (a + b)"
  by simp

lemma not_number_cases: "\<not> is_number p \<Longrightarrow> py_add fl p q = PSum p q \<and> py_mul fl p q = PProd p q"
  by (cases p) simp_all

lemma not_number_right: "\<not> is_number q \<Longrightarrow> py_add fl p q = PSum p q \<and> py_mul fl p q = PProd p q"
  by (cases p; cases q) simp_all

lemma foldl_py_mul_vars:
  assumes "\<not> is_number f" and "eval_pexpr \<sigma> f = Finite a" and "\<forall>g\<in>set fs. \<exists>x. g = PVar x"
  shows "\<not> is_number (foldl (py_mul fl) f fs) \<and>
         eval_pexpr \<sigma> (foldl (py_mul fl) f fs) =
           Finite (a * prod_list (map (\<lambda>g. the_finite (eval_pexpr \<sigma> g)) fs))"
  using assms
proof (induction fs arbitrary: f a)
  case Nil
  then show ?case by simp
next
  case (Cons g fs)
  from Cons.prems(3) obtain x where g: "g = PVar x" by auto
  from Cons.prems(1) have m: "py_mul fl f g = PProd f g" by (simp add: not_number_cases)
  have n: "\<not> is_number (py_mul fl f g)" by (simp add: m)
  have e: "eval_pexpr \<sigma> (py_mul fl f g) = Finite (a * \<sigma> x)"
    by (simp add: m g Cons.prems(2))
  from Cons.prems(3) have r: "\<forall>g\<in>set fs. \<exists>x. g = PVar x" by simp
  from Cons.IH [OF n e r] show ?case by (simp add: g mult.assoc)
qed

lemma prod_factors_of:
  "prod_list (map (\<lambda>g. the_finite (eval_pexpr \<sigma> g)) (factors_of (map PVar xs) es)) =
   prod_list (map (\<lambda>(x, e). \<sigma> x ^ e) (zip xs es))"
  unfolding factors_of_def
  by (induction xs es rule: list_induct2') simp_all

lemma factors_of_nonempty:
  "length es \<le> length vs \<Longrightarrow> \<not> list_all (\<lambda>e. e = 0) es \<Longrightarrow> factors_of vs es \<noteq> []"
  unfolding factors_of_def
  by (induction vs es rule: list_induct2') auto

lemma factors_of_replicate:
  "factors_of vs es = concat (map (\<lambda>(b, n). replicate n b) (zip vs es))"
  unfolding factors_of_def by (induction vs es rule: list_induct2') simp_all

lemma set_factors_of: "set (factors_of vs es) \<subseteq> set vs"
  unfolding factors_of_def by (induction vs es rule: list_induct2') auto

lemma make_term_constant:
  "list_all (\<lambda>e. e = 0) es \<Longrightarrow> make_term fl vs (es, c) = Inr (PNum (fl c))"
  by (simp add: make_term_def)

lemma make_term_product:
  assumes "length es = length vs" and "\<not> list_all (\<lambda>e. e = 0) es"
  shows "\<exists>f fs. factors_of vs es = f # fs \<and>
                make_term fl vs (es, c) = Inr (py_mul fl (PNum (fl c)) (foldl (py_mul fl) f fs))"
proof -
  from assms have "factors_of vs es \<noteq> []" by (simp add: factors_of_nonempty)
  then obtain f fs where "factors_of vs es = f # fs" by (cases "factors_of vs es") auto
  with assms(2) show ?thesis by (simp add: make_term_def)
qed

lemma make_term_ok:
  assumes len: "length es = length xs"
  shows "\<exists>t. make_term fl (map PVar xs) (es, c) = Inr t \<and>
             (is_number t \<longleftrightarrow> list_all (\<lambda>e. e = 0) es) \<and>
             (\<forall>c'. fl c = Finite c' \<longrightarrow>
                (\<forall>\<sigma>. eval_pexpr \<sigma> t = Finite (c' * prod_list (map (\<lambda>(x, e). \<sigma> x ^ e) (zip xs es)))))"
proof (cases "list_all (\<lambda>e. e = 0) es")
  case True
  have "prod_list (map (\<lambda>(x, e). \<sigma> x ^ e) (zip xs es)) = 1" for \<sigma> :: "nat \<Rightarrow> real"
    using True by (induction xs es rule: list_induct2') simp_all
  with True show ?thesis by (simp add: make_term_def)
next
  case False
  from len have "length es = length (map PVar xs)" by simp
  from make_term_product [OF this False, of fl c] obtain f fs where
    ffs: "factors_of (map PVar xs) es = f # fs"
    and t: "make_term fl (map PVar xs) (es, c) = Inr (py_mul fl (PNum (fl c)) (foldl (py_mul fl) f fs))"
    by blast
  have "set (f # fs) \<subseteq> set (map PVar xs)" using set_factors_of [of "map PVar xs" es] by (simp add: ffs)
  then have vars: "\<forall>g\<in>set (f # fs). \<exists>x. g = PVar x" by auto
  then obtain x0 where f: "f = PVar x0" by auto
  from vars have rest: "\<forall>g\<in>set fs. \<exists>x. g = PVar x" by simp
  have nf: "\<not> is_number f" by (simp add: f)
  have P: "\<not> is_number (foldl (py_mul fl) f fs) \<and>
      eval_pexpr \<sigma> (foldl (py_mul fl) f fs) =
        Finite (\<sigma> x0 * prod_list (map (\<lambda>g. the_finite (eval_pexpr \<sigma> g)) fs))" for \<sigma>
    by (rule foldl_py_mul_vars [OF nf _ rest]) (simp add: f)
  have prod: "\<sigma> x0 * prod_list (map (\<lambda>g. the_finite (eval_pexpr \<sigma> g)) fs) =
      prod_list (map (\<lambda>(x, e). \<sigma> x ^ e) (zip xs es))" for \<sigma>
    using prod_factors_of [of \<sigma> xs es] by (simp add: ffs f)
  from P have m: "py_mul fl (PNum (fl c)) (foldl (py_mul fl) f fs) = PProd (PNum (fl c)) (foldl (py_mul fl) f fs)"
    by (simp add: not_number_right)
  show ?thesis
    using False P prod by (simp add: t m)
qed

lemma make_terms_ok:
  assumes "list_all (\<lambda>(es, c). length es = length xs) ts"
  shows "\<exists>ys. make_terms fl (map PVar xs) ts = Inr ys \<and>
     list_all2 (\<lambda>y t. (is_number y \<longleftrightarrow> list_all (\<lambda>e. e = 0) (fst t)) \<and>
                      (\<forall>c'. fl (snd t) = Finite c' \<longrightarrow>
                         (\<forall>\<sigma>. eval_pexpr \<sigma> y =
                               Finite (c' * prod_list (map (\<lambda>(x, e). \<sigma> x ^ e) (zip xs (fst t)))))))
       ys ts"
  using assms
proof (induction ts)
  case Nil
  then show ?case by simp
next
  case (Cons t ts)
  obtain es c where t: "t = (es, c)" by (cases t)
  from Cons.prems t have len: "length es = length xs" by simp
  from make_term_ok [OF len, of fl c] obtain y where
    y: "make_term fl (map PVar xs) (es, c) = Inr y"
       "is_number y \<longleftrightarrow> list_all (\<lambda>e. e = 0) es"
       "\<forall>c'. fl c = Finite c' \<longrightarrow>
          (\<forall>\<sigma>. eval_pexpr \<sigma> y = Finite (c' * prod_list (map (\<lambda>(x, e). \<sigma> x ^ e) (zip xs es))))"
    by blast
  from Cons obtain ys where
    ys: "make_terms fl (map PVar xs) ts = Inr ys"
        "list_all2 (\<lambda>y t. (is_number y \<longleftrightarrow> list_all (\<lambda>e. e = 0) (fst t)) \<and>
                      (\<forall>c'. fl (snd t) = Finite c' \<longrightarrow>
                         (\<forall>\<sigma>. eval_pexpr \<sigma> y =
                               Finite (c' * prod_list (map (\<lambda>(x, e). \<sigma> x ^ e) (zip xs (fst t)))))))
           ys ts"
    by auto
  show ?case using y ys by (simp add: t)
qed

lemma make_terms_nth:
  "make_terms fl vs ts = Inr xs \<Longrightarrow>
   length xs = length ts \<and> (\<forall>k<length ts. make_term fl vs (ts ! k) = Inr (xs ! k))"
proof (induction ts arbitrary: xs)
  case Nil
  then show ?case by simp
next
  case (Cons t ts)
  then obtain x xs' where x: "make_term fl vs t = Inr x" "make_terms fl vs ts = Inr xs'" "xs = x # xs'"
    by (auto split: sum.splits)
  from Cons.IH [OF x(2)] x(1,3) show ?case by (auto simp: nth_Cons split: nat.splits)
qed

lemma make_term_shape:
  assumes "length es = length vs" and "make_term fl vs (es, c) = Inr x"
  shows "(list_all (\<lambda>e. e = 0) es \<longrightarrow> x = PNum (fl c)) \<and>
         (\<not> list_all (\<lambda>e. e = 0) es \<longrightarrow>
            (\<exists>f fs. concat (map (\<lambda>(b, n). replicate n b) (zip vs es)) = f # fs \<and>
                    x = py_mul fl (PNum (fl c)) (foldl (py_mul fl) f fs)))"
proof (cases "list_all (\<lambda>e. e = 0) es")
  case True
  with assms(2) show ?thesis by (simp add: make_term_def)
next
  case False
  from make_term_product [OF assms(1) False, of fl c] assms(2) False show ?thesis
    by (auto simp: factors_of_replicate)
qed

lemma foldl_py_add_tree:
  assumes "\<not> is_number acc" and "eval_pexpr \<sigma> acc = Finite a"
    and "\<forall>x\<in>set xs. \<exists>v. eval_pexpr \<sigma> x = Finite v"
  shows "eval_pexpr \<sigma> (foldl (py_add fl) acc xs) =
           Finite (a + sum_list (map (\<lambda>x. the_finite (eval_pexpr \<sigma> x)) xs))"
  using assms
proof (induction xs arbitrary: acc a)
  case Nil
  then show ?case by simp
next
  case (Cons x xs)
  from Cons.prems(3) obtain v where v: "eval_pexpr \<sigma> x = Finite v" by auto
  from Cons.prems(1) have s: "py_add fl acc x = PSum acc x" by (simp add: not_number_cases)
  have n: "\<not> is_number (py_add fl acc x)" by (simp add: s)
  have e: "eval_pexpr \<sigma> (py_add fl acc x) = Finite (a + v)"
    by (simp add: s v Cons.prems(2))
  from Cons.prems(3) have r: "\<forall>x\<in>set xs. \<exists>v. eval_pexpr \<sigma> x = Finite v" by simp
  from Cons.IH [OF n e r] show ?case by (simp add: v add.assoc)
qed

lemma foldl_py_add_number:
  assumes "v = 0 \<or> filter is_number xs = []"
    and "length (filter is_number xs) \<le> 1"
    and "\<forall>x\<in>set xs. \<exists>w. eval_pexpr \<sigma> x = Finite w"
  shows "eval_pexpr \<sigma> (foldl (py_add fl) (PNum (Finite v)) xs) =
           Finite (v + sum_list (map (\<lambda>x. the_finite (eval_pexpr \<sigma> x)) xs))"
  using assms
proof (induction xs arbitrary: v)
  case Nil
  then show ?case by simp
next
  case (Cons x xs)
  from Cons.prems(3) obtain w where w: "eval_pexpr \<sigma> x = Finite w" by auto
  from Cons.prems(3) have r: "\<forall>x\<in>set xs. \<exists>w. eval_pexpr \<sigma> x = Finite w" by simp
  show ?case
  proof (cases "is_number x")
    case True
    then obtain c where x: "x = PNum c" by (cases x) auto
    with w have c: "c = Finite w" by simp
    from True Cons.prems(1) have v0: "v = 0" by auto
    from True Cons.prems(2) have none: "filter is_number xs = []" by auto
    have step: "py_add fl (PNum (Finite 0)) x = PNum (Finite w)" by (simp add: x c)
    have "eval_pexpr \<sigma> (foldl (py_add fl) (PNum (Finite w)) xs) =
        Finite (w + sum_list (map (\<lambda>x. the_finite (eval_pexpr \<sigma> x)) xs))"
      by (rule Cons.IH) (simp_all add: none r)
    then show ?thesis by (simp add: step w v0)
  next
    case False
    then have s: "py_add fl (PNum (Finite v)) x = PSum (PNum (Finite v)) x"
      by (simp add: not_number_right)
    have n: "\<not> is_number (py_add fl (PNum (Finite v)) x)" by (simp add: s)
    have e: "eval_pexpr \<sigma> (py_add fl (PNum (Finite v)) x) = Finite (v + w)" by (simp add: s w)
    from foldl_py_add_tree [OF n e r, of fl] show ?thesis by (simp add: w add.assoc)
  qed
qed

lemma eval_py_sum:
  assumes "length (filter is_number xs) \<le> 1"
    and "\<forall>x\<in>set xs. \<exists>w. eval_pexpr \<sigma> x = Finite w"
  shows "eval_pexpr \<sigma> (py_sum fl xs) = Finite (sum_list (map (\<lambda>x. the_finite (eval_pexpr \<sigma> x)) xs))"
  using foldl_py_add_number [of 0 xs \<sigma> fl] assms by (simp add: py_sum_def)

lemma foldl_py_add_not_number:
  "\<not> is_number acc \<or> (\<exists>x\<in>set xs. \<not> is_number x) \<Longrightarrow> \<not> is_number (foldl (py_add fl) acc xs)"
proof (induction xs arbitrary: acc)
  case Nil
  then show ?case by simp
next
  case (Cons x xs)
  show ?case
  proof (cases "is_number acc \<and> is_number x")
    case True
    with Cons.prems have "\<exists>x\<in>set xs. \<not> is_number x" by auto
    then show ?thesis by (simp add: Cons.IH)
  next
    case False
    then have "\<not> is_number (py_add fl acc x)" by (cases acc; cases x) simp_all
    then show ?thesis by (simp add: Cons.IH)
  qed
qed

lemma py_sum_not_number:
  "\<exists>x\<in>set xs. \<not> is_number x \<Longrightarrow> \<not> is_number (py_sum fl xs)"
  by (simp add: py_sum_def foldl_py_add_not_number)

lemma one_constant_monomial:
  "list_all (\<lambda>(es, c). length es = n) (ts :: poly_terms) \<Longrightarrow> distinct (map fst ts) \<Longrightarrow>
   length (filter (\<lambda>t. list_all (\<lambda>e. e = 0) (fst t)) ts) \<le> 1"
proof (induction ts)
  case Nil
  then show ?case by simp
next
  case (Cons t ts)
  have zero: "es = replicate n 0" if "length es = n" "list_all (\<lambda>e. e = 0) es" for es :: "nat list"
    using that by (auto simp: list_all_iff intro: replicate_eqI)
  show ?case
  proof (cases "list_all (\<lambda>e. e = 0) (fst t)")
    case True
    from Cons.prems(1) have "length (fst t) = n" by (cases t) simp
    from zero [OF this True] have t0: "fst t = replicate n 0" .
    have "\<not> list_all (\<lambda>e. e = 0) (fst u)" if u: "u \<in> set ts" for u
    proof
      assume z: "list_all (\<lambda>e. e = 0) (fst u)"
      from Cons.prems(1) u have "length (fst u) = n" by (cases u) (auto simp: list_all_iff)
      from zero [OF this z] have "fst u = replicate n 0" .
      with t0 u Cons.prems(2) show False by (auto simp: image_iff)
    qed
    then have "filter (\<lambda>t. list_all (\<lambda>e. e = 0) (fst t)) ts = []" by (simp add: filter_empty_conv)
    with True show ?thesis by simp
  next
    case False
    with Cons show ?thesis by simp
  qed
qed

lemma filter_length_list_all2:
  "list_all2 (\<lambda>x t. A x \<longleftrightarrow> B t) xs ts \<Longrightarrow> length (filter A xs) = length (filter B ts)"
  by (induction rule: list_all2_induct) simp_all

lemma lookup_all_ok:
  "set syms \<subseteq> dom pv \<Longrightarrow> lookup_all pv syms = Inr (map PVar (map (\<lambda>s. the (pv s)) syms))"
  by (induction syms) auto

lemma eval_sexpr_cong:
  "(\<And>v. v \<in> set (atoms e) \<Longrightarrow> \<rho> v = \<rho>' v) \<Longrightarrow> eval_sexpr \<rho> e = eval_sexpr \<rho>' e"
  by (induction e) auto

lemma set_sorted_symbols: "set (sorted_symbols e) = set (atoms e)"
  by (simp add: sorted_symbols_def)

lemma distinct_sorted_symbols: "distinct (sorted_symbols e)"
  by (simp add: sorted_symbols_def)

lemma eval_monomial_bound:
  "prod_list (map (\<lambda>(x, e). \<sigma> x ^ e) (zip (map (\<lambda>s. the (pv s)) syms) es)) =
   eval_monomial (\<lambda>v. \<sigma> (the (pv v))) syms es"
  unfolding eval_monomial_def
  by (induction syms es rule: list_induct2') simp_all

lemma rounds_withinD:
  "rounds_within fl \<epsilon> c \<Longrightarrow> \<exists>c'. fl c = Finite c' \<and> \<bar>c' - c\<bar> \<le> \<epsilon> * \<bar>c\<bar>"
  by (cases "fl c") (simp_all add: rounds_within_def)

lemma eval_terms_converted_diff:
  assumes "\<forall>t\<in>set ts. rounds_within fl \<epsilon> (snd t)"
  shows "\<bar>eval_terms \<rho> gens (converted fl ts) - eval_terms \<rho> gens ts\<bar> \<le>
         \<epsilon> * sum_list (map (\<lambda>(es, c). \<bar>c\<bar> * \<bar>eval_monomial \<rho> gens es\<bar>) ts)"
  using assms
proof (induction ts)
  case Nil
  then show ?case by (simp add: eval_terms_def converted_def)
next
  case (Cons t ts)
  obtain es c where t: "t = (es, c)" by (cases t)
  from Cons.prems t have "rounds_within fl \<epsilon> c" by simp
  from rounds_withinD [OF this] obtain c' where c': "fl c = Finite c'" "\<bar>c' - c\<bar> \<le> \<epsilon> * \<bar>c\<bar>"
    by blast
  let ?m = "eval_monomial \<rho> gens es"
  let ?D = "eval_terms \<rho> gens (converted fl ts) - eval_terms \<rho> gens ts"
  let ?S = "sum_list (map (\<lambda>(es, c). \<bar>c\<bar> * \<bar>eval_monomial \<rho> gens es\<bar>) ts)"
  from Cons have IH: "\<bar>?D\<bar> \<le> \<epsilon> * ?S" by simp
  have "eval_terms \<rho> gens (converted fl (t # ts)) - eval_terms \<rho> gens (t # ts) = (c' - c) * ?m + ?D"
    by (simp add: t eval_terms_def converted_def c'(1) algebra_simps)
  also have "\<bar>\<dots>\<bar> \<le> \<bar>(c' - c) * ?m\<bar> + \<bar>?D\<bar>" by (rule abs_triangle_ineq)
  also have "\<bar>(c' - c) * ?m\<bar> = \<bar>c' - c\<bar> * \<bar>?m\<bar>" by (simp add: abs_mult)
  also have "\<bar>c' - c\<bar> * \<bar>?m\<bar> \<le> (\<epsilon> * \<bar>c\<bar>) * \<bar>?m\<bar>"
    using c'(2) by (intro mult_right_mono) simp_all
  finally have "\<bar>eval_terms \<rho> gens (converted fl (t # ts)) - eval_terms \<rho> gens (t # ts)\<bar> \<le>
      (\<epsilon> * \<bar>c\<bar>) * \<bar>?m\<bar> + \<epsilon> * ?S"
    using IH by simp
  then show ?case by (simp add: t algebra_simps)
qed

lemma make_pyomo_poly_value:
  assumes sound: "as_poly_sound lib expr"
    and red: "reducible lib expr"
    and cover: "set (atoms expr) \<subseteq> dom pv"
    and fin: "\<forall>c\<in>set (coefficients lib expr). \<exists>c'. float lib c = Finite c'"
  shows "\<exists>p. make_pyomo_poly lib pv expr = Inr p \<and>
     (\<forall>\<sigma>. eval_pexpr \<sigma> p =
        Finite (if sorted_symbols expr = [] then the_finite (float lib (eval_sexpr (\<lambda>_. 0) expr))
                else eval_terms (\<lambda>v. \<sigma> (the (pv v))) (sorted_symbols expr)
                       (converted (float lib) (the (as_poly lib expr (sorted_symbols expr))))))"
proof -
  let ?syms = "sorted_symbols expr"
  let ?xs = "map (\<lambda>s. the (pv s)) ?syms"
  let ?fl = "float lib"
  from cover have look: "lookup_all pv ?syms = Inr (map PVar ?xs)"
    by (simp add: lookup_all_ok set_sorted_symbols)
  show ?thesis
  proof (cases "?syms = []")
    case True
    with fin obtain c' where "?fl (eval_sexpr (\<lambda>_. 0) expr) = Finite c'"
      by (auto simp: coefficients_def)
    with True look show ?thesis by (simp add: make_pyomo_poly_def)
  next
    case False
    with red obtain ts where ts: "as_poly lib expr ?syms = Some ts"
      by (auto simp: reducible_def)
    with sound have rep: "represents ?syms ts expr" by (simp add: as_poly_sound_def)
    then have len: "list_all (\<lambda>(es, c). length es = length ?xs) ts"
      and dist: "distinct (map fst ts)"
      by (simp_all add: represents_def)
    from fin False ts have finite: "\<forall>t\<in>set ts. \<exists>c'. ?fl (snd t) = Finite c'"
      by (auto simp: coefficients_def)
    from make_terms_ok [OF len, of ?fl] obtain ys where
      ys: "make_terms ?fl (map PVar ?xs) ts = Inr ys"
      and rel: "list_all2 (\<lambda>y t. (is_number y \<longleftrightarrow> list_all (\<lambda>e. e = 0) (fst t)) \<and>
                      (\<forall>c'. ?fl (snd t) = Finite c' \<longrightarrow>
                         (\<forall>\<sigma>. eval_pexpr \<sigma> y =
                               Finite (c' * prod_list (map (\<lambda>(x, e). \<sigma> x ^ e) (zip ?xs (fst t)))))))
           ys ts"
      by blast
    from rel have "list_all2 (\<lambda>y t. is_number y \<longleftrightarrow> list_all (\<lambda>e. e = 0) (fst t)) ys ts"
      by (rule list_all2_mono) simp
    from filter_length_list_all2 [OF this] one_constant_monomial [OF len dist]
    have one: "length (filter is_number ys) \<le> 1" by simp
    have val: "list_all2 (\<lambda>y t. eval_pexpr \<sigma> y =
          Finite (the_finite (?fl (snd t)) * eval_monomial (\<lambda>v. \<sigma> (the (pv v))) ?syms (fst t))) ys ts" for \<sigma>
      using rel finite
      by (auto simp: list_all2_conv_all_nth eval_monomial_bound) (metis nth_mem the_finite.simps(1))
    have fin_ys: "\<forall>y\<in>set ys. \<exists>w. eval_pexpr \<sigma> y = Finite w" for \<sigma>
      using val [of \<sigma>] by (auto simp: list_all2_conv_all_nth in_set_conv_nth)
    have sum: "sum_list (map (\<lambda>y. the_finite (eval_pexpr \<sigma> y)) ys) =
        eval_terms (\<lambda>v. \<sigma> (the (pv v))) ?syms (converted ?fl ts)" for \<sigma>
      using val [of \<sigma>] unfolding eval_terms_def converted_def
      by (induction ys ts rule: list_all2_induct) (auto split: prod.splits)
    have "eval_pexpr \<sigma> (py_sum ?fl ys) =
        Finite (eval_terms (\<lambda>v. \<sigma> (the (pv v))) ?syms (converted ?fl ts))" for \<sigma>
      using eval_py_sum [OF one fin_ys, of \<sigma> ?fl] by (simp add: sum)
    with False look ts ys show ?thesis by (simp add: make_pyomo_poly_def)
  qed
qed

lemma make_pyomo_poly_correct:
  assumes sound: "as_poly_sound lib expr"
    and red: "reducible lib expr"
    and cover: "set (atoms expr) \<subseteq> dom pv"
    and rnd: "\<forall>c\<in>set (coefficients lib expr). rounds_within (float lib) \<epsilon> c"
  shows "\<exists>p. make_pyomo_poly lib pv expr = Inr p \<and>
     (\<forall>\<sigma>. \<exists>y. eval_pexpr \<sigma> p = Finite y \<and>
        \<bar>y - eval_sexpr (\<lambda>v. \<sigma> (the (pv v))) expr\<bar> \<le> \<epsilon> * magnitude lib (\<lambda>v. \<sigma> (the (pv v))) expr)"
proof -
  let ?syms = "sorted_symbols expr"
  let ?fl = "float lib"
  from rnd have fin: "\<forall>c\<in>set (coefficients lib expr). \<exists>c'. ?fl c = Finite c'"
    by (blast dest: rounds_withinD)
  from make_pyomo_poly_value [OF sound red cover fin] obtain p where
    p: "make_pyomo_poly lib pv expr = Inr p"
    and v: "\<And>\<sigma>. eval_pexpr \<sigma> p =
        Finite (if ?syms = [] then the_finite (?fl (eval_sexpr (\<lambda>_. 0) expr))
                else eval_terms (\<lambda>v. \<sigma> (the (pv v))) ?syms
                       (converted ?fl (the (as_poly lib expr ?syms))))"
    by blast
  have "\<exists>y. eval_pexpr \<sigma> p = Finite y \<and>
        \<bar>y - eval_sexpr (\<lambda>v. \<sigma> (the (pv v))) expr\<bar> \<le> \<epsilon> * magnitude lib (\<lambda>v. \<sigma> (the (pv v))) expr" for \<sigma>
  proof (cases "?syms = []")
    case True
    let ?c = "eval_sexpr (\<lambda>_. 0) expr"
    from True have "set (atoms expr) = {}" using set_sorted_symbols [of expr] by simp
    then have const: "eval_sexpr (\<lambda>v. \<sigma> (the (pv v))) expr = ?c"
      by (intro eval_sexpr_cong) simp
    from rnd True have "rounds_within ?fl \<epsilon> ?c" by (simp add: coefficients_def)
    from rounds_withinD [OF this] obtain c' where c': "?fl ?c = Finite c'" "\<bar>c' - ?c\<bar> \<le> \<epsilon> * \<bar>?c\<bar>"
      by blast
    with True show ?thesis by (simp add: v magnitude_def const)
  next
    case False
    with red obtain ts where ts: "as_poly lib expr ?syms = Some ts"
      by (auto simp: reducible_def)
    with sound have "represents ?syms ts expr" by (simp add: as_poly_sound_def)
    then have rep: "eval_terms \<rho> ?syms ts = eval_sexpr \<rho> expr" for \<rho>
      by (simp add: represents_def)
    from rnd False ts have "\<forall>t\<in>set ts. rounds_within ?fl \<epsilon> (snd t)"
      by (auto simp: coefficients_def)
    from eval_terms_converted_diff [OF this, of "\<lambda>v. \<sigma> (the (pv v))" ?syms] False ts
    show ?thesis by (simp add: v magnitude_def rep)
  qed
  with p show ?thesis by blast
qed

lemma make_pyomo_poly_shape:
  assumes sound: "as_poly_sound lib expr"
    and cover: "set (atoms expr) \<subseteq> dom pv"
    and p: "make_pyomo_poly lib pv expr = Inr p"
  shows "(sorted_symbols expr = [] \<longrightarrow> p = PNum (float lib (eval_sexpr (\<lambda>_. 0) expr))) \<and>
     (\<forall>ts. sorted_symbols expr \<noteq> [] \<and> as_poly lib expr (sorted_symbols expr) = Some ts \<longrightarrow>
        (\<exists>terms. p = py_sum (float lib) terms \<and> length terms = length ts \<and>
           (\<forall>k<length ts.
              (list_all (\<lambda>e. e = 0) (fst (ts ! k)) \<longrightarrow> terms ! k = PNum (float lib (snd (ts ! k)))) \<and>
              (\<not> list_all (\<lambda>e. e = 0) (fst (ts ! k)) \<longrightarrow>
                 (\<exists>f fs. concat (map (\<lambda>(b, n). replicate n b)
                            (zip (map (\<lambda>s. PVar (the (pv s))) (sorted_symbols expr)) (fst (ts ! k)))) = f # fs \<and>
                         terms ! k = py_mul (float lib) (PNum (float lib (snd (ts ! k))))
                                       (foldl (py_mul (float lib)) f fs))))))"
proof (intro conjI allI impI)
  let ?syms = "sorted_symbols expr"
  let ?vs = "map (\<lambda>s. PVar (the (pv s))) ?syms"
  let ?fl = "float lib"
  from cover have look: "lookup_all pv ?syms = Inr ?vs"
    by (simp add: lookup_all_ok set_sorted_symbols)
  {
    assume "?syms = []"
    with p look show "p = PNum (?fl (eval_sexpr (\<lambda>_. 0) expr))" by (simp add: make_pyomo_poly_def)
  }
  fix ts
  assume h: "?syms \<noteq> [] \<and> as_poly lib expr ?syms = Some ts"
  with p look obtain terms where t: "make_terms ?fl ?vs ts = Inr terms" "p = py_sum ?fl terms"
    by (auto simp: make_pyomo_poly_def split: sum.splits)
  from h sound have "represents ?syms ts expr" by (simp add: as_poly_sound_def)
  then have len: "\<forall>t\<in>set ts. length (fst t) = length ?vs"
    by (auto simp: represents_def list_all_iff)
  from make_terms_nth [OF t(1)] have n: "length terms = length ts"
    "\<And>k. k < length ts \<Longrightarrow> make_term ?fl ?vs (ts ! k) = Inr (terms ! k)" by auto
  have "(list_all (\<lambda>e. e = 0) (fst (ts ! k)) \<longrightarrow> terms ! k = PNum (?fl (snd (ts ! k)))) \<and>
        (\<not> list_all (\<lambda>e. e = 0) (fst (ts ! k)) \<longrightarrow>
           (\<exists>f fs. concat (map (\<lambda>(b, n). replicate n b) (zip ?vs (fst (ts ! k)))) = f # fs \<and>
                   terms ! k = py_mul ?fl (PNum (?fl (snd (ts ! k)))) (foldl (py_mul ?fl) f fs)))"
    if k: "k < length ts" for k
  proof -
    from k len have l: "length (fst (ts ! k)) = length ?vs" by simp
    from n(2) [OF k] have m: "make_term ?fl ?vs (fst (ts ! k), snd (ts ! k)) = Inr (terms ! k)" by simp
    from make_term_shape [OF l m] show ?thesis .
  qed
  with t(2) n(1) show "\<exists>terms. p = py_sum ?fl terms \<and> length terms = length ts \<and>
           (\<forall>k<length ts.
              (list_all (\<lambda>e. e = 0) (fst (ts ! k)) \<longrightarrow> terms ! k = PNum (?fl (snd (ts ! k)))) \<and>
              (\<not> list_all (\<lambda>e. e = 0) (fst (ts ! k)) \<longrightarrow>
                 (\<exists>f fs. concat (map (\<lambda>(b, n). replicate n b) (zip ?vs (fst (ts ! k)))) = f # fs \<and>
                         terms ! k = py_mul ?fl (PNum (?fl (snd (ts ! k)))) (foldl (py_mul ?fl) f fs))))"
    by blast
qed

lemma make_pyomo_poly_fails:
  assumes "\<not> reducible lib expr"
  shows "\<exists>e. make_pyomo_poly lib pv expr = Inl e"
  using assms
  by (auto simp: make_pyomo_poly_def reducible_def Let_def split: sum.splits)

lemma make_pyomo_poly_ValueError:
  assumes "\<not> reducible lib expr" "set (atoms expr) \<subseteq> dom pv"
  shows "make_pyomo_poly lib pv expr = Inl (ValueError ''{} is not a sympy polynomial'' [ArgExpr expr])"
  using assms
  by (simp add: make_pyomo_poly_def reducible_def lookup_all_ok set_sorted_symbols)

section \<open>Every exponent becomes that many factors\<close>

lemma factors_of_Cons:
  "factors_of (v # vs) (e # es) = replicate e v @ factors_of vs es"
  by (simp add: factors_of_def)

lemma count_list_replicate: "count_list (replicate n x) y = (if x = y then n else 0)"
  by (induction n) auto

lemma count_factors_of:
  "length es = length vs \<Longrightarrow> distinct vs \<Longrightarrow> i < length vs \<Longrightarrow>
   count_list (factors_of vs es) (vs ! i) = es ! i"
proof (induction es vs arbitrary: i rule: list_induct2)
  case Nil
  then show ?case by simp
next
  case (Cons e es v vs)
  show ?case
  proof (cases i)
    case 0
    from Cons.prems(1) have "v \<notin> set (factors_of vs es)" using set_factors_of [of vs es] by auto
    then have "count_list (factors_of vs es) v = 0" by (simp add: count_list_0_iff)
    with 0 show ?thesis by (simp add: factors_of_Cons count_list_replicate)
  next
    case (Suc j)
    with Cons.prems have j: "j < length vs" and ne: "v \<noteq> vs ! j" by auto
    from Cons.IH [OF _ j] Cons.prems(1) have "count_list (factors_of vs es) (vs ! j) = es ! j" by simp
    with Suc ne show ?thesis by (simp add: factors_of_Cons count_list_replicate)
  qed
qed

section \<open>The reference decomposition represents its expression\<close>

lemma eval_monomial_zero: "eval_monomial \<rho> gens (replicate (length gens) 0) = 1"
  unfolding eval_monomial_def by (induction gens) simp_all

lemma eval_monomial_unit_notin:
  "v \<notin> set gens \<Longrightarrow> eval_monomial \<rho> gens (map (\<lambda>g. if g = v then 1 else 0) gens) = 1"
  unfolding eval_monomial_def by (induction gens) auto

lemma eval_monomial_unit:
  "distinct gens \<Longrightarrow> v \<in> set gens \<Longrightarrow>
   eval_monomial \<rho> gens (map (\<lambda>g. if g = v then 1 else 0) gens) = \<rho> v"
proof (induction gens)
  case Nil
  then show ?case by simp
next
  case (Cons g gens)
  show ?case
  proof (cases "g = v")
    case True
    with Cons.prems have "v \<notin> set gens" by simp
    from eval_monomial_unit_notin [OF this, of \<rho>] True show ?thesis
      by (simp add: eval_monomial_def)
  next
    case False
    with Cons show ?thesis by (simp add: eval_monomial_def)
  qed
qed

lemma eval_monomial_add':
  "length gens = length es \<Longrightarrow> length es = length fs \<Longrightarrow>
   eval_monomial \<rho> gens (map2 (+) es fs) = eval_monomial \<rho> gens es * eval_monomial \<rho> gens fs"
  unfolding eval_monomial_def
  by (induction gens es fs rule: list_induct3) (simp_all add: power_add mult_ac)

lemma eval_monomial_add:
  "length es = length gens \<Longrightarrow> length fs = length gens \<Longrightarrow>
   eval_monomial \<rho> gens (map2 (+) es fs) = eval_monomial \<rho> gens es * eval_monomial \<rho> gens fs"
  by (rule eval_monomial_add') simp_all

lemma eval_terms_append:
  "eval_terms \<rho> gens (p @ q) = eval_terms \<rho> gens p + eval_terms \<rho> gens q"
  by (simp add: eval_terms_def)

lemma eval_terms_scale:
  assumes "length es = length gens" "wf_terms (length gens) q"
  shows "eval_terms \<rho> gens (map (\<lambda>(fs, d). (map2 (+) es fs, c * d)) q) =
         c * eval_monomial \<rho> gens es * eval_terms \<rho> gens q"
  using assms(2)
proof (induction q)
  case Nil
  then show ?case by (simp add: eval_terms_def)
next
  case (Cons t q)
  obtain fs d where t: "t = (fs, d)" by (cases t)
  with Cons.prems have len: "length fs = length gens" and wf: "wf_terms (length gens) q"
    by (simp_all add: wf_terms_def)
  have "eval_terms \<rho> gens (map (\<lambda>(fs, d). (map2 (+) es fs, c * d)) (t # q)) =
        c * d * eval_monomial \<rho> gens (map2 (+) es fs) +
        eval_terms \<rho> gens (map (\<lambda>(fs, d). (map2 (+) es fs, c * d)) q)"
    by (simp add: t eval_terms_def)
  also have "\<dots> = c * d * (eval_monomial \<rho> gens es * eval_monomial \<rho> gens fs) +
        c * eval_monomial \<rho> gens es * eval_terms \<rho> gens q"
    by (simp add: eval_monomial_add [OF assms(1) len] Cons.IH [OF wf])
  also have "\<dots> = c * eval_monomial \<rho> gens es * eval_terms \<rho> gens (t # q)"
    by (simp add: t eval_terms_def algebra_simps)
  finally show ?case .
qed

lemma eval_terms_poly_mul:
  assumes "wf_terms (length gens) p" "wf_terms (length gens) q"
  shows "eval_terms \<rho> gens (poly_mul p q) = eval_terms \<rho> gens p * eval_terms \<rho> gens q"
  using assms(1)
proof (induction p)
  case Nil
  then show ?case by (simp add: poly_mul_def eval_terms_def)
next
  case (Cons t p)
  obtain es c where t: "t = (es, c)" by (cases t)
  with Cons.prems have len: "length es = length gens" and wf: "wf_terms (length gens) p"
    by (simp_all add: wf_terms_def)
  have "poly_mul (t # p) q = map (\<lambda>(fs, d). (map2 (+) es fs, c * d)) q @ poly_mul p q"
    by (simp add: poly_mul_def t)
  then have "eval_terms \<rho> gens (poly_mul (t # p) q) =
        c * eval_monomial \<rho> gens es * eval_terms \<rho> gens q + eval_terms \<rho> gens p * eval_terms \<rho> gens q"
    by (simp add: eval_terms_append eval_terms_scale [OF len assms(2)] Cons.IH [OF wf])
  also have "\<dots> = eval_terms \<rho> gens (t # p) * eval_terms \<rho> gens q"
    by (simp add: t eval_terms_def algebra_simps)
  finally show ?case .
qed

lemma wf_terms_poly_mul:
  "wf_terms k p \<Longrightarrow> wf_terms k q \<Longrightarrow> wf_terms k (poly_mul p q)"
  by (fastforce simp: wf_terms_def poly_mul_def list_all_iff)

lemma wf_terms_poly_pow: "wf_terms k p \<Longrightarrow> wf_terms k (poly_pow k p n)"
  by (induction n) (simp_all add: wf_terms_poly_mul, simp add: wf_terms_def)

lemma eval_terms_poly_pow:
  "wf_terms (length gens) p \<Longrightarrow>
   eval_terms \<rho> gens (poly_pow (length gens) p n) = eval_terms \<rho> gens p ^ n"
proof (induction n)
  case 0
  then show ?case by (simp add: eval_terms_def eval_monomial_zero)
next
  case (Suc n)
  then show ?case
    by (simp add: eval_terms_poly_mul wf_terms_poly_pow)
qed

lemma expand_sound:
  "distinct gens \<Longrightarrow> expand gens e = Some ts \<Longrightarrow>
   wf_terms (length gens) ts \<and> (\<forall>\<rho>. eval_terms \<rho> gens ts = eval_sexpr \<rho> e)"
proof (induction e arbitrary: ts)
  case (Num c)
  then show ?case by (auto simp: wf_terms_def eval_terms_def eval_monomial_zero)
next
  case (Symbol v)
  then show ?case
    by (auto simp: wf_terms_def eval_terms_def eval_monomial_unit split: if_splits)
next
  case (Add a b)
  then show ?case
    by (auto simp: wf_terms_def eval_terms_append split: option.splits)
next
  case (Mul a b)
  then show ?case
    by (auto simp: wf_terms_poly_mul eval_terms_poly_mul split: option.splits)
next
  case (Pow a n)
  then show ?case
    by (auto simp: wf_terms_poly_pow eval_terms_poly_pow split: option.splits)
next
  case (Apply f a)
  then show ?case by simp
qed

lemma sample_lib_sound:
  assumes "\<And>ts. expand (sorted_symbols e) e = Some ts \<Longrightarrow> distinct (map fst ts)"
  shows "as_poly_sound sample_lib e"
  using expand_sound [OF distinct_sorted_symbols, of e] assms
  by (auto simp: as_poly_sound_def represents_def sample_lib_def expand_as_poly_def wf_terms_def)

section \<open>Failures end the solve\<close>

lemma make_pyomo_relation_fails:
  assumes "\<not> reducible lib (sub lib a b)"
  shows "\<exists>e. make_pyomo_relation lib pv (Rel k a b) = Inl e"
proof -
  from make_pyomo_poly_fails [OF assms] obtain e where "make_pyomo_poly lib pv (sub lib a b) = Inl e"
    by blast
  then show ?thesis by (cases k) (simp_all add: compare_to_zero_def)
qed

lemma add_constraints_fails:
  assumes "\<And>st. \<exists>e. add_constraint lib st c = Inl e" and "c \<in> set cs"
  shows "\<exists>e. add_constraints lib st cs = Inl e"
  using assms(2)
proof (induction cs arbitrary: st)
  case Nil
  then show ?case by simp
next
  case (Cons c' cs)
  show ?case
  proof (cases "add_constraint lib st c'")
    case (Inl e)
    then show ?thesis by simp
  next
    case (Inr st')
    with Cons.prems assms(1) [of st] have "c \<in> set cs" by auto
    from Cons.IH [OF this, of st'] Inr show ?thesis by simp
  qed
qed

lemma build_model_fails_constraint:
  assumes "\<And>st. \<exists>e. add_constraint lib st c = Inl e" and "c \<in> set (constraints p)"
  shows "\<exists>e. build_model lib p = Inl e"
  using add_constraints_fails [OF assms]
  by (auto simp: build_model_def split: prod.splits sum.splits)

lemma solve_fails_build: "build_model lib p = Inl e \<Longrightarrow> solve lib run self p = Inl e"
  by (simp add: solve_def)

lemma build_model_fails_objective:
  assumes "\<not> reducible lib (objective p)"
  shows "\<exists>e. build_model lib p = Inl e"
proof -
  obtain st1 d where b: "bind_variables initial_state Map.empty (variables p) = (st1, d)"
    by (cases "bind_variables initial_state Map.empty (variables p)")
  from make_pyomo_poly_fails [OF assms] obtain e where "make_pyomo_poly lib d (objective p) = Inl e"
    by blast
  then show ?thesis by (simp add: build_model_def b set_objective_def)
qed

lemma add_constraint_relation_fails:
  assumes "\<not> reducible lib (sub lib a b)" and "c = Rel k a b \<or> c = RelConstraint (Rel k a b)"
  shows "\<exists>e. add_constraint lib st c = Inl e"
proof -
  from make_pyomo_relation_fails [OF assms(1)] obtain e where
    "make_pyomo_relation lib (pyomo_variables st) (Rel k a b) = Inl e" by blast
  with assms(2) show ?thesis by auto
qed

lemma add_constraint_not_relation:
  assumes "\<forall>k a b. c \<noteq> Rel k a b \<and> c \<noteq> RelConstraint (Rel k a b)"
  shows "add_constraint lib st c = Inl NotImplementedError"
proof (cases c)
  case (RelConstraint e)
  with assms show ?thesis by (cases e) simp_all
qed (use assms in simp_all)

section \<open>Invariants of variable binding and model building\<close>

lemma bind_variables_dom:
  "bind_variables st d vs = (st', d') \<Longrightarrow> dom d' = dom d \<union> set vs"
  by (induction vs arbitrary: st d) (auto simp: add_var_def Let_def split: prod.splits)

lemma bind_variables_counter:
  "bind_variables st d vs = (st', d') \<Longrightarrow> var_counter st' = var_counter st + length vs"
  by (induction vs arbitrary: st d) (auto simp: add_var_def Let_def split: prod.splits)

lemma bind_variables_keep:
  "bind_variables st d vs = (st', d') \<Longrightarrow> v \<notin> set vs \<Longrightarrow> d' v = d v"
  by (induction vs arbitrary: st d) (auto simp: add_var_def Let_def split: prod.splits)

lemma bind_variables_new:
  "bind_variables st d vs = (st', d') \<Longrightarrow> v \<in> set vs \<Longrightarrow>
   \<exists>x. d' v = Some x \<and> var_counter st < x \<and> x \<le> var_counter st + length vs"
proof (induction vs arbitrary: st d)
  case Nil
  then show ?case by simp
next
  case (Cons w vs)
  let ?st1 = "fst (add_var st)"
  from Cons.prems(1) have b: "bind_variables ?st1 (d(w \<mapsto> var_counter st + 1)) vs = (st', d')"
    by (simp add: add_var_def Let_def)
  have c1: "var_counter ?st1 = var_counter st + 1" by (simp add: add_var_def Let_def)
  show ?case
  proof (cases "v \<in> set vs")
    case True
    from Cons.IH [OF b True] c1 show ?thesis by auto
  next
    case False
    with Cons.prems(2) have "v = w" by simp
    with bind_variables_keep [OF b False] show ?thesis by simp
  qed
qed

lemma bind_variables_inj:
  "bind_variables st d vs = (st', d') \<Longrightarrow> inj_on d' (set vs)"
proof (induction vs arbitrary: st d)
  case Nil
  then show ?case by simp
next
  case (Cons w vs)
  let ?st1 = "fst (add_var st)"
  from Cons.prems(1) have b: "bind_variables ?st1 (d(w \<mapsto> var_counter st + 1)) vs = (st', d')"
    by (simp add: add_var_def Let_def)
  have c1: "var_counter ?st1 = var_counter st + 1" by (simp add: add_var_def Let_def)
  have inj: "inj_on d' (set vs)" by (rule Cons.IH [OF b])
  show ?case
  proof (cases "w \<in> set vs")
    case True
    then have "set (w # vs) = set vs" by auto
    with inj show ?thesis by simp
  next
    case False
    from bind_variables_keep [OF b False] have w: "d' w = Some (var_counter st + 1)" by simp
    have "d' v \<noteq> d' w" if "v \<in> set vs" for v
      using bind_variables_new [OF b that] c1 w by auto
    then have "d' w \<notin> d' ` (set vs - {w})" by (metis DiffD1 imageE)
    with inj show ?thesis by simp
  qed
qed

lemma bind_variables_vars:
  "bind_variables st d vs = (st', d') \<Longrightarrow>
   vars (model st') = (\<lambda>x. if var_counter st < x \<and> x \<le> var_counter st + length vs then Some Var
                           else vars (model st) x)"
proof (induction vs arbitrary: st d)
  case Nil
  then show ?case by (auto simp: fun_eq_iff)
next
  case (Cons w vs)
  let ?st1 = "fst (add_var st)"
  from Cons.prems(1) have b: "bind_variables ?st1 (d(w \<mapsto> var_counter st + 1)) vs = (st', d')"
    by (simp add: add_var_def Let_def)
  have c1: "var_counter ?st1 = var_counter st + 1"
    and v1: "vars (model ?st1) = (vars (model st))(var_counter st + 1 \<mapsto> Var)"
    by (simp_all add: add_var_def Let_def)
  show ?case
    unfolding Cons.IH [OF b] c1 v1 by (auto simp: fun_eq_iff)
qed

lemma bind_variables_other:
  "bind_variables st d vs = (st', d') \<Longrightarrow>
   obj (model st') = obj (model st) \<and> cons (model st') = cons (model st) \<and>
   constraint_counter st' = constraint_counter st \<and> pyomo_variables st' = pyomo_variables st"
  by (induction vs arbitrary: st d) (auto simp: add_var_def Let_def split: prod.splits)

lemma set_objective_keeps:
  "set_objective lib st p = Inr st' \<Longrightarrow>
   pyomo_variables st' = pyomo_variables st \<and> vars (model st') = vars (model st)"
  by (auto simp: set_objective_def split: sum.splits)

lemma add_constraint_keeps:
  "add_constraint lib st c = Inr st' \<Longrightarrow>
   pyomo_variables st' = pyomo_variables st \<and> vars (model st') = vars (model st)"
  by (auto simp: get_constraint_name_def Let_def split: pyobj.splits sum.splits prod.splits)

lemma add_constraints_keeps:
  "add_constraints lib st cs = Inr st' \<Longrightarrow>
   pyomo_variables st' = pyomo_variables st \<and> vars (model st') = vars (model st)"
proof (induction cs arbitrary: st)
  case Nil
  then show ?case by simp
next
  case (Cons c cs)
  then obtain st1 where st1: "add_constraint lib st c = Inr st1" "add_constraints lib st1 cs = Inr st'"
    by (auto split: sum.splits)
  from add_constraint_keeps [OF st1(1)] Cons.IH [OF st1(2)] show ?case by simp
qed

lemma build_model_binding:
  assumes "build_model lib p = Inr st"
  shows "\<exists>st1. bind_variables initial_state Map.empty (variables p) = (st1, pyomo_variables st) \<and>
               vars (model st) = vars (model st1)"
proof -
  obtain st1 d where b: "bind_variables initial_state Map.empty (variables p) = (st1, d)"
    by (cases "bind_variables initial_state Map.empty (variables p)")
  with assms obtain st2 where
    st2: "set_objective lib (st1\<lparr>pyomo_variables := d\<rparr>) p = Inr st2"
         "add_constraints lib st2 (constraints p) = Inr st"
    by (auto simp: build_model_def split: sum.splits)
  from set_objective_keeps [OF st2(1)] add_constraints_keeps [OF st2(2)] b show ?thesis by simp
qed

lemma initial_counter: "var_counter initial_state = 0" "vars (model initial_state) = Map.empty"
  by (simp_all add: initial_state_def ConcreteModel_def)

lemma dom_solution:
  assumes "\<And>v x. d v = Some x \<Longrightarrow> x \<in> dom (vars m)"
  shows "dom (solution (load m r) d) = dom d"
proof -
  have "solution (load m r) d v \<noteq> None \<longleftrightarrow> d v \<noteq> None" for v
  proof (cases "d v")
    case None
    then show ?thesis by (simp add: solution_def)
  next
    case (Some x)
    from assms [OF Some] obtain pv where "vars m x = Some pv" by auto
    with Some show ?thesis by (simp add: solution_def load_def)
  qed
  then show ?thesis by (auto simp: dom_def)
qed

lemma build_model_refs:
  assumes "build_model lib p = Inr st"
  shows "dom (pyomo_variables st) = set (variables p)"
    and "pyomo_variables st v = Some x \<Longrightarrow> x \<in> dom (vars (model st))"
proof -
  from build_model_binding [OF assms] obtain st1 where
    b: "bind_variables initial_state Map.empty (variables p) = (st1, pyomo_variables st)"
    and v: "vars (model st) = vars (model st1)" by blast
  from bind_variables_dom [OF b] show "dom (pyomo_variables st) = set (variables p)" by simp
  assume x: "pyomo_variables st v = Some x"
  then have "v \<in> set (variables p)" using bind_variables_dom [OF b] by auto
  from bind_variables_new [OF b this] x
  have "0 < x \<and> x \<le> length (variables p)" by (simp add: initial_counter)
  then show "x \<in> dom (vars (model st))"
    by (simp add: v bind_variables_vars [OF b] initial_counter dom_def)
qed

section \<open>The loop of solver resolution\<close>

lemma PyomoSolver_init_available:
  "PyomoSolver_init SolverFactory name kwargs \<noteq> Inl SolverNotAvailableError"
  by (simp add: PyomoSolver_init_def split: sum.splits)

lemma get_solver_loop_skip:
  "funcs name = Some f \<Longrightarrow> f () = Inl SolverNotAvailableError \<Longrightarrow>
   get_solver_loop funcs (name # names) = get_solver_loop funcs names"
  by simp

lemma get_solver_loop_none:
  "(\<And>name. name \<in> set names \<Longrightarrow> \<exists>f. funcs name = Some f \<and> f () = Inl SolverNotAvailableError) \<Longrightarrow>
   get_solver_loop funcs names = Inr None"
proof (induction names)
  case Nil
  then show ?case by simp
next
  case (Cons name names)
  from Cons.prems [of name] obtain f where f: "funcs name = Some f" "f () = Inl SolverNotAvailableError"
    by auto
  have "get_solver_loop funcs names = Inr None"
    by (rule Cons.IH) (simp add: Cons.prems)
  with f show ?case by simp
qed

section \<open>The translation on the sample problems\<close>

lemma var_x_neq_var_y: "var_x \<noteq> var_y"
  by (simp add: var_x_def var_y_def)

lemma sorted_symbols_sample: "sorted_symbols sample_poly = [var_x, var_y]"
  by (simp add: sorted_symbols_def sample_poly_def var_x_def var_y_def)

lemma sample_lib_simps:
  "as_poly sample_lib = expand_as_poly" "sub sample_lib = tree_sub" "float sample_lib = range_float"
  by (simp_all add: sample_lib_def)

lemma range_float_finite: "\<bar>c\<bar> < 2 ^ 1024 \<Longrightarrow> range_float c = Finite c"
  by (simp add: range_float_def)

lemma sample_expansion:
  "expand_as_poly sample_poly (sorted_symbols sample_poly) = Some [([2, 1], 3), ([0, 1], 2), ([0, 0], 7)]"
  by (simp add: sorted_symbols_sample)
     (simp add: expand_as_poly_def sample_poly_def var_x_neq_var_y var_x_neq_var_y [symmetric]
        poly_mul_def numeral_2_eq_2)

lemma symbols_x: "sorted_symbols (Symbol var_x) = [var_x]"
  by (simp add: sorted_symbols_def)

lemma symbols_y_minus: "sorted_symbols (tree_sub (Symbol var_y) (Num c)) = [var_y]"
  by (simp add: sorted_symbols_def tree_sub_def)

lemma symbols_x_minus: "sorted_symbols (tree_sub (Symbol var_x) (Num c)) = [var_x]"
  by (simp add: sorted_symbols_def tree_sub_def)

lemma symbols_x_plus_y: "sorted_symbols (Add (Symbol var_x) (Symbol var_y)) = [var_x, var_y]"
  by (simp add: sorted_symbols_def var_x_def var_y_def)

lemma expansion_x_minus:
  "expand_as_poly (tree_sub (Symbol var_x) (Num c)) [var_x] = Some [([1], 1), ([0], - c)]"
  by (simp add: expand_as_poly_def tree_sub_def poly_mul_def)

lemma poly_x:
  "pv var_x = Some i \<Longrightarrow>
   make_pyomo_poly sample_lib pv (Symbol var_x) =
     Inr (PSum (PNum (Finite 0)) (PProd (PNum (Finite 1)) (PVar i)))"
  by (simp add: make_pyomo_poly_def symbols_x sample_lib_simps expand_as_poly_def make_term_def
      factors_of_def py_sum_def range_float_finite)

lemma poly_x_minus:
  "pv var_x = Some i \<Longrightarrow> \<bar>c\<bar> < 2 ^ 1024 \<Longrightarrow>
   make_pyomo_poly sample_lib pv (tree_sub (Symbol var_x) (Num c)) =
     Inr (PSum (PSum (PNum (Finite 0)) (PProd (PNum (Finite 1)) (PVar i))) (PNum (Finite (- c))))"
  by (simp add: make_pyomo_poly_def symbols_x_minus sample_lib_simps expansion_x_minus)
     (simp add: make_term_def factors_of_def py_sum_def range_float_finite)

lemma poly_y_minus:
  "pv var_y = Some i \<Longrightarrow> \<bar>c\<bar> < 2 ^ 1024 \<Longrightarrow>
   make_pyomo_poly sample_lib pv (tree_sub (Symbol var_y) (Num c)) =
     Inr (PSum (PSum (PNum (Finite 0)) (PProd (PNum (Finite 1)) (PVar i))) (PNum (Finite (- c))))"
  by (simp add: make_pyomo_poly_def symbols_y_minus sample_lib_simps)
     (simp add: tree_sub_def expand_as_poly_def poly_mul_def make_term_def factors_of_def py_sum_def
        range_float_finite sample_lib_simps)

lemma poly_x_plus_y:
  "pv var_x = Some i \<Longrightarrow> pv var_y = Some j \<Longrightarrow>
   make_pyomo_poly sample_lib pv (Add (Symbol var_x) (Symbol var_y)) =
     Inr (PSum (PSum (PNum (Finite 0)) (PProd (PNum (Finite 1)) (PVar i))) (PProd (PNum (Finite 1)) (PVar j)))"
  by (simp add: make_pyomo_poly_def symbols_x_plus_y sample_lib_simps)
     (simp add: expand_as_poly_def var_x_neq_var_y var_x_neq_var_y [symmetric] make_term_def
        factors_of_def py_sum_def range_float_finite sample_lib_simps)

lemma bind_one:
  "bind_variables initial_state Map.empty [var_x] =
     (initial_state\<lparr>var_counter := 1, model := ConcreteModel\<lparr>vars := [1 \<mapsto> Var]\<rparr>\<rparr>, [var_x \<mapsto> 1])"
  by (simp add: add_var_def initial_state_def ConcreteModel_def Let_def)

lemma bind_two:
  "bind_variables initial_state Map.empty [var_x, var_y] =
     (initial_state\<lparr>var_counter := 2, model := ConcreteModel\<lparr>vars := [1 \<mapsto> Var, 2 \<mapsto> Var]\<rparr>\<rparr>,
      [var_x \<mapsto> 1, var_y \<mapsto> 2])"
  by (simp add: add_var_def initial_state_def ConcreteModel_def Let_def numeral_2_eq_2)

lemma infeasible_builds: "\<exists>st. build_model sample_lib infeasible_problem = Inr st"
  by (simp add: build_model_def infeasible_problem_def bind_one set_objective_def poly_x
      sample_lib_simps poly_x_minus compare_to_zero_def get_constraint_name_def Let_def
      del: bind_variables.simps)

lemma feasible_builds: "\<exists>st. build_model sample_lib feasible_problem = Inr st"
  by (simp add: build_model_def feasible_problem_def bind_two set_objective_def poly_x_plus_y
      sample_lib_simps var_x_neq_var_y poly_y_minus poly_x_minus compare_to_zero_def
      get_constraint_name_def Let_def del: bind_variables.simps)

lemma test_vars_sos: "SOS1Constraint test_vars \<in> set (constraints test_simple_SOS1_problem)"
  by (simp add: test_simple_SOS1_problem_def)

lemma abs_not_reducible: "\<not> reducible sample_lib abs_minus_one"
  by (simp add: reducible_def abs_minus_one_def sorted_symbols_def tree_sub_def expand_as_poly_def
      sample_lib_simps)

section \<open>Translations that are expressions\<close>

lemma comparison_not_number:
  "\<not> is_number p \<Longrightarrow> py_le p q = PLe p q \<and> py_ge p q = PGe p q \<and> py_eq p q = PEq p q"
  by (cases p) simp_all

lemma make_pyomo_poly_not_number:
  assumes sound: "as_poly_sound lib expr"
    and ts: "as_poly lib expr (sorted_symbols expr) = Some ts"
    and cover: "set (atoms expr) \<subseteq> dom pv"
    and var: "\<exists>t\<in>set ts. \<not> list_all (\<lambda>e. e = 0) (fst t)"
  shows "\<exists>p. make_pyomo_poly lib pv expr = Inr p \<and> \<not> is_number p"
proof -
  let ?syms = "sorted_symbols expr"
  let ?xs = "map (\<lambda>s. the (pv s)) ?syms"
  let ?fl = "float lib"
  from cover have look: "lookup_all pv ?syms = Inr (map PVar ?xs)"
    by (simp add: lookup_all_ok set_sorted_symbols)
  from sound ts have "represents ?syms ts expr" by (simp add: as_poly_sound_def)
  then have len: "list_all (\<lambda>(es, c). length es = length ?xs) ts" by (simp add: represents_def)
  from var obtain t where t: "t \<in> set ts" "\<not> list_all (\<lambda>e. e = 0) (fst t)" by blast
  from len t(1) have "length (fst t) = length ?syms" by (cases t) (auto simp: list_all_iff)
  with t(2) have ne: "?syms \<noteq> []" by auto
  from make_terms_ok [OF len, of ?fl] obtain ys where
    ys: "make_terms ?fl (map PVar ?xs) ts = Inr ys"
    and rel: "list_all2 (\<lambda>y t. (is_number y \<longleftrightarrow> list_all (\<lambda>e. e = 0) (fst t)) \<and>
                      (\<forall>c'. ?fl (snd t) = Finite c' \<longrightarrow>
                         (\<forall>\<sigma>. eval_pexpr \<sigma> y =
                               Finite (c' * prod_list (map (\<lambda>(x, e). \<sigma> x ^ e) (zip ?xs (fst t)))))))
           ys ts"
    by blast
  from t(1) obtain k where k: "k < length ts" "ts ! k = t" by (auto simp: in_set_conv_nth)
  with rel t(2) have "k < length ys" "\<not> is_number (ys ! k)"
    by (auto simp: list_all2_conv_all_nth)
  then have "\<exists>y\<in>set ys. \<not> is_number y" using nth_mem by blast
  then have "\<not> is_number (py_sum ?fl ys)" by (rule py_sum_not_number)
  with ne look ts ys show ?thesis by (simp add: make_pyomo_poly_def)
qed

section \<open>The claims\<close>

text \<open>
  Claim C1 as stated fails on a coefficient beyond the range of floats: for \<open>10\<^sup>4\<^sup>0\<^sup>0 x\<close>
  the hypotheses of the claim hold, \<^verbatim>\<open>float(coeff)\<close> is infinite, and at \<open>x = 0\<close> the
  expression is 0 while the translated term sum is not a number.
\<close>

theorem float_overflow_not_equivalent:
  "as_poly_sound sample_lib huge_coefficient \<and> reducible sample_lib huge_coefficient \<and>
   set (atoms huge_coefficient) \<subseteq> dom sample_binding \<and>
   make_pyomo_poly sample_lib sample_binding huge_coefficient =
     Inr (PSum (PNum (Finite 0)) (PProd (PNum PosInf) (PVar 1))) \<and>
   eval_pexpr (\<lambda>x. 0) (PSum (PNum (Finite 0)) (PProd (PNum PosInf) (PVar 1))) = NaN \<and>
   eval_sexpr (\<lambda>v. 0) huge_coefficient = 0"
proof -
  have s: "sorted_symbols huge_coefficient = [var_x]"
    by (simp add: sorted_symbols_def huge_coefficient_def)
  have e: "expand [var_x] huge_coefficient = Some [([1], 10 ^ 400)]"
    by (simp add: huge_coefficient_def poly_mul_def)
  have h1: "as_poly_sound sample_lib huge_coefficient"
    by (rule sample_lib_sound) (auto simp: s e)
  have h2: "reducible sample_lib huge_coefficient"
    by (simp add: reducible_def s sample_lib_simps expand_as_poly_def e)
  have h3: "set (atoms huge_coefficient) \<subseteq> dom sample_binding"
    by (simp add: huge_coefficient_def sample_binding_def)
  have t: "make_pyomo_poly sample_lib sample_binding huge_coefficient =
     Inr (PSum (PNum (Finite 0)) (PProd (PNum PosInf) (PVar 1)))"
    by (simp add: make_pyomo_poly_def s sample_lib_simps expand_as_poly_def e sample_binding_def
        make_term_def factors_of_def py_sum_def range_float_def var_x_neq_var_y)
  have v: "eval_pexpr (\<lambda>x. 0) (PSum (PNum (Finite 0)) (PProd (PNum PosInf) (PVar 1))) = NaN"
    by simp
  have w: "eval_sexpr (\<lambda>v. 0) huge_coefficient = 0" by (simp add: huge_coefficient_def)
  from h1 h2 h3 t v w show ?thesis by simp
qed

text \<open>
  Claim C1, as amended. For an expression reducible to a polynomial whose numbers all
  convert to finite floats, a library decomposition that represents it and a binding that
  covers its symbols, the polynomial translation returns a solver expression whose value,
  at every assignment of the solver variables, is finite and differs from the value of the
  expression at the corresponding assignment of its symbols by no more than the rounding
  of the coefficients: if \<^verbatim>\<open>float()\<close> changes every coefficient by at most the relative
  error \<open>\<epsilon>\<close>, the two values differ by at most \<open>\<epsilon>\<close> times the sum of the absolute values of
  the monomials. An expression without symbols is returned as its converted number;
  otherwise the result is the sum of one term per monomial: the converted coefficient
  alone for a monomial without variables, and else the converted coefficient times the
  product of the factor list in which every variable stands as many times as its exponent
  says.
\<close>

theorem make_pyomo_poly_equivalent:
  assumes "as_poly_sound lib expr"
    and "reducible lib expr"
    and "set (atoms expr) \<subseteq> dom pv"
    and "\<forall>c\<in>set (coefficients lib expr). rounds_within (float lib) \<epsilon> c"
  shows "\<exists>p. make_pyomo_poly lib pv expr = Inr p \<and>
     (\<forall>\<sigma>. \<exists>y. eval_pexpr \<sigma> p = Finite y \<and>
        \<bar>y - eval_sexpr (\<lambda>v. \<sigma> (the (pv v))) expr\<bar> \<le>
          \<epsilon> * magnitude lib (\<lambda>v. \<sigma> (the (pv v))) expr) \<and>
     (sorted_symbols expr = [] \<longrightarrow> p = PNum (float lib (eval_sexpr (\<lambda>_. 0) expr))) \<and>
     (\<forall>ts. sorted_symbols expr \<noteq> [] \<and> as_poly lib expr (sorted_symbols expr) = Some ts \<longrightarrow>
        (\<exists>terms. p = py_sum (float lib) terms \<and> length terms = length ts \<and>
           (\<forall>k<length ts.
              (list_all (\<lambda>e. e = 0) (fst (ts ! k)) \<longrightarrow> terms ! k = PNum (float lib (snd (ts ! k)))) \<and>
              (\<not> list_all (\<lambda>e. e = 0) (fst (ts ! k)) \<longrightarrow>
                 (\<exists>f fs. concat (map (\<lambda>(b, n). replicate n b)
                            (zip (map (\<lambda>s. PVar (the (pv s))) (sorted_symbols expr)) (fst (ts ! k)))) = f # fs \<and>
                         terms ! k = py_mul (float lib) (PNum (float lib (snd (ts ! k))))
                                       (foldl (py_mul (float lib)) f fs))))))"
proof -
  from make_pyomo_poly_correct [OF assms] obtain p where
    p: "make_pyomo_poly lib pv expr = Inr p"
       "\<forall>\<sigma>. \<exists>y. eval_pexpr \<sigma> p = Finite y \<and>
          \<bar>y - eval_sexpr (\<lambda>v. \<sigma> (the (pv v))) expr\<bar> \<le>
            \<epsilon> * magnitude lib (\<lambda>v. \<sigma> (the (pv v))) expr"
    by blast
  from make_pyomo_poly_shape [OF assms(1) assms(3) p(1)] p show ?thesis
    by (intro exI [of _ p]) simp
qed

theorem make_pyomo_poly_equivalent_witness:
  "as_poly_sound sample_lib sample_poly \<and> reducible sample_lib sample_poly \<and>
   set (atoms sample_poly) \<subseteq> dom sample_binding \<and>
   coefficients sample_lib sample_poly = [3, 2, 7] \<and>
   rounds_within (float sample_lib) 0 3 \<and> rounds_within (float sample_lib) 0 2 \<and>
   rounds_within (float sample_lib) 0 7 \<and>
   (\<exists>p. make_pyomo_poly sample_lib sample_binding sample_poly = Inr p \<and>
        (\<forall>\<sigma>. eval_pexpr \<sigma> p = Finite (eval_sexpr (\<lambda>v. \<sigma> (the (sample_binding v))) sample_poly)) \<and>
        (\<exists>terms. p = py_sum (float sample_lib) terms \<and> length terms = 3))"
proof -
  note h4 = sample_expansion
  have h1: "as_poly_sound sample_lib sample_poly"
    by (rule sample_lib_sound) (use h4 in \<open>auto simp: expand_as_poly_def\<close>)
  have h5: "sorted_symbols sample_poly \<noteq> []" by (simp add: sorted_symbols_sample)
  from h4 have h2: "reducible sample_lib sample_poly" by (simp add: reducible_def sample_lib_simps)
  have h3: "set (atoms sample_poly) \<subseteq> dom sample_binding"
    by (simp add: sample_poly_def sample_binding_def)
  have co: "coefficients sample_lib sample_poly = [3, 2, 7]"
    using h4 h5 by (simp add: coefficients_def sample_lib_simps)
  have r: "rounds_within (float sample_lib) 0 3" "rounds_within (float sample_lib) 0 2"
    "rounds_within (float sample_lib) 0 7"
    by (simp_all add: rounds_within_def sample_lib_simps range_float_finite)
  then have h6: "\<forall>c\<in>set (coefficients sample_lib sample_poly). rounds_within (float sample_lib) 0 c"
    by (simp add: co)
  from make_pyomo_poly_equivalent [OF h1 h2 h3 h6] obtain p where
    p1: "make_pyomo_poly sample_lib sample_binding sample_poly = Inr p"
    and p2: "\<forall>\<sigma>. \<exists>y. eval_pexpr \<sigma> p = Finite y \<and>
        \<bar>y - eval_sexpr (\<lambda>v. \<sigma> (the (sample_binding v))) sample_poly\<bar> \<le>
          0 * magnitude sample_lib (\<lambda>v. \<sigma> (the (sample_binding v))) sample_poly"
    and p3: "\<forall>ts. sorted_symbols sample_poly \<noteq> [] \<and>
             as_poly sample_lib sample_poly (sorted_symbols sample_poly) = Some ts \<longrightarrow>
        (\<exists>terms. p = py_sum (float sample_lib) terms \<and> length terms = length ts \<and>
           (\<forall>k<length ts.
              (list_all (\<lambda>e. e = 0) (fst (ts ! k)) \<longrightarrow> terms ! k = PNum (float sample_lib (snd (ts ! k)))) \<and>
              (\<not> list_all (\<lambda>e. e = 0) (fst (ts ! k)) \<longrightarrow>
                 (\<exists>f fs. concat (map (\<lambda>(b, n). replicate n b)
                            (zip (map (\<lambda>s. PVar (the (sample_binding s))) (sorted_symbols sample_poly)) (fst (ts ! k)))) = f # fs \<and>
                         terms ! k = py_mul (float sample_lib) (PNum (float sample_lib (snd (ts ! k))))
                                       (foldl (py_mul (float sample_lib)) f fs)))))"
    by (elim exE conjE)
  have q2: "eval_pexpr \<sigma> p = Finite (eval_sexpr (\<lambda>v. \<sigma> (the (sample_binding v))) sample_poly)" for \<sigma>
    using p2 [rule_format, of \<sigma>] by auto
  from p3 [rule_format, of "[([2, 1], 3), ([0, 1], 2), ([0, 0], 7)]"] h4 h5
  obtain terms where "p = py_sum (float sample_lib) terms" "length terms = 3"
    by (auto simp: sample_lib_simps)
  then have q3: "\<exists>terms. p = py_sum (float sample_lib) terms \<and> length terms = 3" by blast
  from q2 have q2': "\<forall>\<sigma>. eval_pexpr \<sigma> p = Finite (eval_sexpr (\<lambda>v. \<sigma> (the (sample_binding v))) sample_poly)"
    by blast
  from h1 h2 h3 co r p1 q2' q3 show ?thesis by (intro conjI exI [of _ p]) assumption+
qed

text \<open>
  Claim C2. When \<^verbatim>\<open>solve\<close> returns, the keys of the returned mapping are exactly the
  variables of the problem.
\<close>

theorem solve_keys:
  assumes "solve lib run self p = Inr m"
  shows "dom m = set (variables p)"
proof -
  from assms obtain st r where st: "build_model lib p = Inr st"
    and m: "m = solution (load (model st) r) (pyomo_variables st)"
    by (auto simp: solve_def split: sum.splits if_splits)
  have "dom m = dom (pyomo_variables st)"
    unfolding m by (rule dom_solution) (rule build_model_refs(2) [OF st])
  with build_model_refs(1) [OF st] show ?thesis by simp
qed

theorem solve_keys_witness:
  "\<exists>m. solve sample_lib (run_reporting optimal [1 \<mapsto> 5, 2 \<mapsto> 1]) (PyomoSolver ()) feasible_problem = Inr m \<and>
       dom m = {var_x, var_y}"
proof -
  from feasible_builds obtain st where "build_model sample_lib feasible_problem = Inr st" ..
  then have s: "solve sample_lib (run_reporting optimal [1 \<mapsto> 5, 2 \<mapsto> 1]) (PyomoSolver ()) feasible_problem =
      Inr (solution (load (model st) \<lparr>status = optimal, var_values = [1 \<mapsto> 5, 2 \<mapsto> 1]\<rparr>) (pyomo_variables st))"
    by (simp add: solve_def run_reporting_def)
  from solve_keys [OF s] have "dom (solution (load (model st) \<lparr>status = optimal, var_values = [1 \<mapsto> 5, 2 \<mapsto> 1]\<rparr>)
      (pyomo_variables st)) = {var_x, var_y}"
    by (simp add: feasible_problem_def)
  with s show ?thesis by blast
qed

text \<open>
  Claim C3. When the model is built and the external solver reports a status other than
  optimal, \<^verbatim>\<open>solve\<close> raises \<^verbatim>\<open>SolverError\<close> with the reported status; and whenever
  \<^verbatim>\<open>solve\<close> returns a mapping, the solver has reported the status optimal.
\<close>

theorem solve_status:
  "(build_model lib p = Inr st \<and> run (solver self) (model st) = Inr r \<and> status r \<noteq> optimal \<longrightarrow>
      solve lib run self p =
        Inl (SolverError (''pyomo solution status is '{0}'' @ [CHR 0x27]) [ArgStatus (status r)])) \<and>
   (solve lib run self p = Inr m \<longrightarrow>
      (\<exists>st r. build_model lib p = Inr st \<and> run (solver self) (model st) = Inr r \<and>
              status r = optimal \<and> m = solution (load (model st) r) (pyomo_variables st)))"
  by (auto simp: solve_def split: sum.splits if_splits)

theorem solve_status_witness:
  "(\<exists>st. build_model sample_lib infeasible_problem = Inr st \<and>
         run_reporting infeasible Map.empty (solver (PyomoSolver ())) (model st) =
           Inr \<lparr>status = infeasible, var_values = Map.empty\<rparr>) \<and>
   infeasible \<noteq> optimal \<and>
   solve sample_lib (run_reporting infeasible Map.empty) (PyomoSolver ()) infeasible_problem =
     Inl (SolverError (''pyomo solution status is '{0}'' @ [CHR 0x27]) [ArgStatus infeasible]) \<and>
   (\<exists>m st r. solve sample_lib (run_reporting optimal [1 \<mapsto> 5, 2 \<mapsto> 1]) (PyomoSolver ()) feasible_problem = Inr m \<and>
        build_model sample_lib feasible_problem = Inr st \<and>
        run_reporting optimal [1 \<mapsto> 5, 2 \<mapsto> 1] (solver (PyomoSolver ())) (model st) = Inr r \<and>
        status r = optimal)"
proof -
  from infeasible_builds obtain st where st: "build_model sample_lib infeasible_problem = Inr st" ..
  have r: "run_reporting infeasible Map.empty (solver (PyomoSolver ())) (model st) =
      Inr \<lparr>status = infeasible, var_values = Map.empty\<rparr>"
    by (simp add: run_reporting_def)
  have n: "status \<lparr>status = infeasible, var_values = Map.empty\<rparr> \<noteq> optimal" by simp
  from solve_status [of sample_lib infeasible_problem st "run_reporting infeasible Map.empty"
      "PyomoSolver ()" "\<lparr>status = infeasible, var_values = Map.empty\<rparr>"] st r n
  have a: "solve sample_lib (run_reporting infeasible Map.empty) (PyomoSolver ()) infeasible_problem =
     Inl (SolverError (''pyomo solution status is '{0}'' @ [CHR 0x27]) [ArgStatus infeasible])"
    by simp
  from feasible_builds obtain st' where "build_model sample_lib feasible_problem = Inr st'" ..
  then obtain m where m: "solve sample_lib (run_reporting optimal [1 \<mapsto> 5, 2 \<mapsto> 1]) (PyomoSolver ()) feasible_problem = Inr m"
    by (simp add: solve_def run_reporting_def)
  from solve_status [of sample_lib feasible_problem _ "run_reporting optimal [1 \<mapsto> 5, 2 \<mapsto> 1]"
      "PyomoSolver ()" _ m] m
  have b: "\<exists>st r. build_model sample_lib feasible_problem = Inr st \<and>
        run_reporting optimal [1 \<mapsto> 5, 2 \<mapsto> 1] (solver (PyomoSolver ())) (model st) = Inr r \<and>
        status r = optimal"
    by blast
  from st r a m b show ?thesis by blast
qed

text \<open>
  Claim C4. A relation with a strict comparator is refused with the error of the
  translation and is never turned into a constraint; any other object that is not a
  non-strict inequality or an equality is refused with the error that carries the object
  and its type.
\<close>

theorem strict_relation_rejected:
  "make_pyomo_relation lib pv (Rel StrictLessThan a b) =
     Inl (PyomoExpressionError ''Strict inequalities are not allowed.'' []) \<and>
   make_pyomo_relation lib pv (Rel StrictGreaterThan a b) =
     Inl (PyomoExpressionError ''Strict inequalities are not allowed.'' []) \<and>
   ((\<forall>k a b. expr = Rel k a b \<longrightarrow> k = Unequality) \<longrightarrow>
     make_pyomo_relation lib pv expr =
       Inl (PyomoExpressionError ''Expression \"{}\" ({}) cannot be translated.''
              [ArgObj expr, ArgType (type_of expr)]))"
proof (intro conjI impI)
  assume h: "\<forall>k a b. expr = Rel k a b \<longrightarrow> k = Unequality"
  show "make_pyomo_relation lib pv expr =
       Inl (PyomoExpressionError ''Expression \"{}\" ({}) cannot be translated.''
              [ArgObj expr, ArgType (type_of expr)])"
  proof (cases expr)
    case (Rel k a b)
    with h have "k = Unequality" by simp
    with Rel show ?thesis by simp
  qed simp_all
qed simp_all

theorem strict_relation_rejected_witness:
  "make_pyomo_relation sample_lib sample_binding (Rel StrictLessThan (Symbol var_x) (Num 1)) =
     Inl (PyomoExpressionError ''Strict inequalities are not allowed.'' []) \<and>
   make_pyomo_relation sample_lib sample_binding (Rel StrictGreaterThan (Symbol var_x) (Num 1)) =
     Inl (PyomoExpressionError ''Strict inequalities are not allowed.'' []) \<and>
   make_pyomo_relation sample_lib sample_binding (Rel Unequality (Symbol var_x) (Num 1)) =
     Inl (PyomoExpressionError ''Expression \"{}\" ({}) cannot be translated.''
            [ArgObj (Rel Unequality (Symbol var_x) (Num 1)), ArgType (ClassRel Unequality)])"
proof -
  have h: "\<forall>k a b. Rel Unequality (Symbol var_x) (Num 1) = Rel k a b \<longrightarrow> k = Unequality" by simp
  from strict_relation_rejected [of sample_lib sample_binding "Symbol var_x" "Num 1"
      "Rel Unequality (Symbol var_x) (Num 1)"] h
  show ?thesis by simp
qed

text \<open>
  Claim C5 as stated fails: the variable \<open>var_x\<close> declares the lower bound \<open>-1\<close> and the
  integer domain, and the solver variable bound to it has no lower bound and the real domain.
\<close>

theorem metadata_not_preserved:
  "snd (bind_variables initial_state Map.empty [var_x]) var_x = Some 1 \<and>
   vars (model (fst (bind_variables initial_state Map.empty [var_x]))) 1 = Some Var \<and>
   \<not> preserves_metadata var_x Var"
  by (simp add: add_var_def initial_state_def ConcreteModel_def preserves_metadata_def Var_def var_x_def)

text \<open>
  Claim C5, as amended. Binding the distinct variables of a problem creates exactly one
  solver variable per problem variable, the binding is a bijection between the two, and
  every solver variable is created by \<^verbatim>\<open>Var()\<close> without arguments: without bounds, in
  the default domain of the reals, and without a value.
\<close>

theorem bind_variables_bijective:
  assumes "distinct vs" and "bind_variables initial_state Map.empty vs = (st, d)"
  shows "dom d = set vs \<and>
         bij_betw (\<lambda>v. the (d v)) (set vs) (dom (vars (model st))) \<and>
         card (dom (vars (model st))) = length vs \<and>
         (\<forall>v\<in>set vs. vars (model st) (the (d v)) = Some Var)"
proof -
  let ?f = "\<lambda>v. the (d v)"
  let ?R = "{x. 0 < x \<and> x \<le> length vs}"
  have dom_d: "dom d = set vs" using bind_variables_dom [OF assms(2)] by simp
  have vars_eq: "vars (model st) = (\<lambda>x. if 0 < x \<and> x \<le> length vs then Some Var else None)"
    unfolding bind_variables_vars [OF assms(2)]
    by (auto simp: fun_eq_iff initial_counter)
  then have dom_vars: "dom (vars (model st)) = ?R" by (auto simp: dom_def)
  have R: "?R = {1..length vs}" by auto
  have range: "?f v \<in> ?R" if "v \<in> set vs" for v
    using bind_variables_new [OF assms(2) that] by (auto simp: initial_counter)
  have inj_d: "inj_on d (set vs)" by (rule bind_variables_inj [OF assms(2)])
  have inj: "inj_on ?f (set vs)"
  proof (rule inj_onI)
    fix v w
    assume v: "v \<in> set vs" and w: "w \<in> set vs" and eq: "the (d v) = the (d w)"
    from v dom_d obtain x where x: "d v = Some x" by blast
    from w dom_d obtain y where y: "d w = Some y" by blast
    from eq x y have "d v = d w" by simp
    from inj_onD [OF inj_d this v w] show "v = w" .
  qed
  have "card (?f ` set vs) = length vs"
    using inj assms(1) by (simp add: card_image distinct_card)
  moreover have "?f ` set vs \<subseteq> ?R" using range by auto
  moreover have "card ?R = length vs" by (simp add: R)
  ultimately have img: "?f ` set vs = ?R"
    by (intro card_subset_eq) (simp_all add: R)
  have "bij_betw ?f (set vs) (dom (vars (model st)))"
    unfolding dom_vars using inj img by (simp add: bij_betw_def)
  moreover have "card (dom (vars (model st))) = length vs" by (simp add: dom_vars R)
  moreover have "\<forall>v\<in>set vs. vars (model st) (?f v) = Some Var"
    using range by (simp add: vars_eq)
  ultimately show ?thesis using dom_d by simp
qed

theorem bind_variables_bijective_witness:
  "distinct [var_x, var_y] \<and>
   dom (snd (bind_variables initial_state Map.empty [var_x, var_y])) = {var_x, var_y} \<and>
   bij_betw (\<lambda>v. the (snd (bind_variables initial_state Map.empty [var_x, var_y]) v)) {var_x, var_y}
     (dom (vars (model (fst (bind_variables initial_state Map.empty [var_x, var_y]))))) \<and>
   card (dom (vars (model (fst (bind_variables initial_state Map.empty [var_x, var_y]))))) = 2 \<and>
   vars (model (fst (bind_variables initial_state Map.empty [var_x, var_y])))
     (the (snd (bind_variables initial_state Map.empty [var_x, var_y]) var_x)) = Some Var"
proof -
  have h1: "distinct [var_x, var_y]" by (simp add: var_x_neq_var_y)
  have h2: "bind_variables initial_state Map.empty [var_x, var_y] =
      (fst (bind_variables initial_state Map.empty [var_x, var_y]),
       snd (bind_variables initial_state Map.empty [var_x, var_y]))" by simp
  from bind_variables_bijective [OF h1 h2] h1 show ?thesis by auto
qed

text \<open>
  Claim C6 as stated fails for a relation between two numbers: the difference of the
  sides of \<open>3 \<le> 5\<close> has no variable, its translation is a float, and Python compares it to
  0 to the Boolean \<^verbatim>\<open>True\<close>, which is no constraint; the modelling library refuses it.
\<close>

theorem constant_relation_not_constraint:
  "make_pyomo_relation sample_lib sample_binding (Rel LessThan (Num 3) (Num 5)) = Inr (PBool True) \<and>
   add_constraint sample_lib initial_state (Rel LessThan (Num 3) (Num 5)) =
     Inl (ValueError ''trivial Boolean constraint'' [])"
proof -
  have s: "sorted_symbols (tree_sub (Num 3) (Num 5)) = []"
    by (simp add: sorted_symbols_def tree_sub_def)
  have v: "eval_sexpr (\<lambda>_. 0) (tree_sub (Num 3) (Num 5)) = - 2" by (simp add: tree_sub_def)
  have p: "make_pyomo_poly sample_lib pv (tree_sub (Num 3) (Num 5)) = Inr (PNum (Finite (- 2)))" for pv
    by (simp add: make_pyomo_poly_def s v sample_lib_simps range_float_finite)
  show ?thesis by (simp add: sample_lib_simps p compare_to_zero_def)
qed

text \<open>
  Claim C6, as amended. For a relation whose difference of sides is a polynomial with at
  least one monomial that has a variable, the relation translation returns a single
  constraint of the modelling library: the polynomial translation of \<open>lhs - rhs\<close>, which
  is an expression and no number, compared to zero with \<open>\<le>\<close>, \<open>\<ge>\<close> and \<open>=\<close> for the three
  translatable classes; the modelling library accepts each of them as a constraint.
\<close>

theorem relation_normal_form:
  assumes "as_poly_sound lib (sub lib lhs rhs)"
    and "as_poly lib (sub lib lhs rhs) (sorted_symbols (sub lib lhs rhs)) = Some ts"
    and "set (atoms (sub lib lhs rhs)) \<subseteq> dom pv"
    and "\<exists>t\<in>set ts. \<not> list_all (\<lambda>e. e = 0) (fst t)"
  shows "\<exists>p. make_pyomo_poly lib pv (sub lib lhs rhs) = Inr p \<and> \<not> is_number p \<and>
     make_pyomo_relation lib pv (Rel LessThan lhs rhs) = Inr (PLe p (PNum (Finite 0))) \<and>
     make_pyomo_relation lib pv (Rel GreaterThan lhs rhs) = Inr (PGe p (PNum (Finite 0))) \<and>
     make_pyomo_relation lib pv (Rel Equality lhs rhs) = Inr (PEq p (PNum (Finite 0))) \<and>
     Constraint (PLe p (PNum (Finite 0))) = Inr (PLe p (PNum (Finite 0))) \<and>
     Constraint (PGe p (PNum (Finite 0))) = Inr (PGe p (PNum (Finite 0))) \<and>
     Constraint (PEq p (PNum (Finite 0))) = Inr (PEq p (PNum (Finite 0)))"
proof -
  from make_pyomo_poly_not_number [OF assms] obtain p where
    p: "make_pyomo_poly lib pv (sub lib lhs rhs) = Inr p" "\<not> is_number p"
    by blast
  from comparison_not_number [OF p(2), of "PNum (Finite 0)"] p show ?thesis
    by (intro exI [of _ p]) (simp add: compare_to_zero_def)
qed

theorem relation_normal_form_witness:
  "as_poly_sound sample_lib (sub sample_lib (Symbol var_x) (Num 5)) \<and>
   as_poly sample_lib (sub sample_lib (Symbol var_x) (Num 5))
     (sorted_symbols (sub sample_lib (Symbol var_x) (Num 5))) = Some [([1], 1), ([0], - 5)] \<and>
   set (atoms (sub sample_lib (Symbol var_x) (Num 5))) \<subseteq> dom sample_binding \<and>
   \<not> list_all (\<lambda>e. e = 0) [1 :: nat] \<and>
   (\<exists>p. make_pyomo_poly sample_lib sample_binding (sub sample_lib (Symbol var_x) (Num 5)) = Inr p \<and>
        \<not> is_number p \<and>
        make_pyomo_relation sample_lib sample_binding (Rel LessThan (Symbol var_x) (Num 5)) =
          Inr (PLe p (PNum (Finite 0))) \<and>
        make_pyomo_relation sample_lib sample_binding (Rel GreaterThan (Symbol var_x) (Num 5)) =
          Inr (PGe p (PNum (Finite 0))) \<and>
        make_pyomo_relation sample_lib sample_binding (Rel Equality (Symbol var_x) (Num 5)) =
          Inr (PEq p (PNum (Finite 0))))"
proof -
  have e: "as_poly sample_lib (sub sample_lib (Symbol var_x) (Num 5))
     (sorted_symbols (sub sample_lib (Symbol var_x) (Num 5))) = Some [([1], 1), ([0], - 5)]"
    by (simp add: sample_lib_simps symbols_x_minus expansion_x_minus)
  have h1: "as_poly_sound sample_lib (sub sample_lib (Symbol var_x) (Num 5))"
    unfolding sample_lib_simps
    by (rule sample_lib_sound) (use expansion_x_minus [of 5] in \<open>auto simp: symbols_x_minus expand_as_poly_def\<close>)
  have h3: "set (atoms (sub sample_lib (Symbol var_x) (Num 5))) \<subseteq> dom sample_binding"
    by (simp add: sample_lib_simps tree_sub_def sample_binding_def)
  have n: "\<not> list_all (\<lambda>e. e = 0) [1 :: nat]" by simp
  then have h4: "\<exists>t\<in>set [([1 :: nat], 1 :: real), ([0], - 5)]. \<not> list_all (\<lambda>e. e = 0) (fst t)" by simp
  from relation_normal_form [OF h1 e h3 h4] e h1 h3 n show ?thesis by blast
qed

text \<open>
  Claim C7. An ordered-set constraint of type 1 or 2 is refused with
  \<^verbatim>\<open>NotImplementedError\<close>, and so is every constraint that is neither a relation nor a
  \<^verbatim>\<open>RelConstraint\<close> around one; a problem that contains such a constraint is never solved
  to a mapping, so the constraint is not passed over in silence.
\<close>

theorem unimplemented_constraint_kinds:
  "add_constraint lib st (SOS1Constraint vs) = Inl NotImplementedError \<and>
   add_constraint lib st (SOS2Constraint vs) = Inl NotImplementedError \<and>
   ((\<forall>k a b. c \<noteq> Rel k a b \<and> c \<noteq> RelConstraint (Rel k a b)) \<longrightarrow>
      add_constraint lib st c = Inl NotImplementedError \<and>
      (c \<in> set (constraints p) \<longrightarrow> (\<exists>e. solve lib run self p = Inl e)))"
proof (intro conjI impI)
  assume h: "\<forall>k a b. c \<noteq> Rel k a b \<and> c \<noteq> RelConstraint (Rel k a b)"
  then show "add_constraint lib st c = Inl NotImplementedError"
    by (rule add_constraint_not_relation)
  assume c: "c \<in> set (constraints p)"
  have "\<exists>e. add_constraint lib st' c = Inl e" for st'
    using add_constraint_not_relation [OF h] by blast
  from build_model_fails_constraint [OF this c] show "\<exists>e. solve lib run self p = Inl e"
    by (auto dest: solve_fails_build)
qed simp_all

theorem unimplemented_constraint_kinds_witness:
  "(\<forall>k a b. SOS1Constraint test_vars \<noteq> Rel k a b \<and> SOS1Constraint test_vars \<noteq> RelConstraint (Rel k a b)) \<and>
   SOS1Constraint test_vars \<in> set (constraints test_simple_SOS1_problem) \<and>
   add_constraint sample_lib initial_state (SOS1Constraint test_vars) = Inl NotImplementedError \<and>
   add_constraint sample_lib initial_state (SOS2Constraint test_vars) = Inl NotImplementedError \<and>
   (\<exists>e. solve sample_lib (run_reporting optimal Map.empty) (PyomoSolver ()) test_simple_SOS1_problem = Inl e)"
proof -
  have h: "\<forall>k a b. SOS1Constraint test_vars \<noteq> Rel k a b \<and> SOS1Constraint test_vars \<noteq> RelConstraint (Rel k a b)"
    by simp
  from unimplemented_constraint_kinds [of sample_lib initial_state test_vars "SOS1Constraint test_vars"
      test_simple_SOS1_problem "run_reporting optimal Map.empty" "PyomoSolver ()"] h test_vars_sos
  show ?thesis by blast
qed

text \<open>
  Claim C8, evaluated on the code. Whatever the solver factory does, resolution over the
  names \<^verbatim>\<open>gurobi\<close>, \<^verbatim>\<open>cbc\<close> is decided by the first name alone: the constructor never
  raises \<^verbatim>\<open>SolverNotAvailableError\<close>, so the handler of \<^verbatim>\<open>get_solver\<close> is never
  entered. Where the primary backend is unavailable and the secondary one is available,
  resolution returns the adapter around the unavailable primary handle.
\<close>

theorem get_solver_unavailable_primary:
  "get_solver SolverFactory order [''gurobi'', ''cbc''] =
     (case SolverFactory ''gurobi'' [(''solver_io'', ''python'')] of
        Inl x \<Rightarrow> Inl (LibraryError x)
      | Inr h \<Rightarrow> Inr (Some (PyomoSolver h))) \<and>
   get_solver (factory_where (\<lambda>name. name = ''cbc'')) DEFAULT_SOLVER_ORDER [] =
     Inr (Some (PyomoSolver (OptSolver ''gurobi'' [(''solver_io'', ''python'')] False))) \<and>
   get_solver (factory_where (\<lambda>name. name = ''cbc'')) DEFAULT_SOLVER_ORDER [''gurobi'', ''cbc''] =
     Inr (Some (PyomoSolver (OptSolver ''gurobi'' [(''solver_io'', ''python'')] False)))"
  by (simp add: get_solver_def solver_funcs_def PyomoSolver_init_def factory_where_def
      DEFAULT_SOLVER_ORDER_def split: sum.splits)

text \<open>
  Claim C9, evaluated on the code where no backend is available: resolution returns an
  adapter around the unavailable primary handle, neither an error nor \<^verbatim>\<open>None\<close>.
\<close>

theorem get_solver_all_unavailable:
  "get_solver (factory_where (\<lambda>name. False)) DEFAULT_SOLVER_ORDER [] =
     Inr (Some (PyomoSolver (OptSolver ''gurobi'' [(''solver_io'', ''python'')] False)))"
  by (simp add: get_solver_def solver_funcs_def PyomoSolver_init_def factory_where_def
      DEFAULT_SOLVER_ORDER_def)

text \<open>
  Claim C10. An expression that is not reducible to a polynomial over its variables makes
  the polynomial translation fail: with some error for every binding, and with the
  \<^verbatim>\<open>ValueError\<close> of the translation when the binding covers the expression's symbols.
  The failure ends the solve: a problem with such an objective, or with a relation whose
  difference of sides is such an expression, is never solved to a mapping.
\<close>

theorem not_polynomial_fails:
  assumes "\<not> reducible lib expr"
  shows "(\<exists>e. make_pyomo_poly lib pv expr = Inl e) \<and>
         (set (atoms expr) \<subseteq> dom pv \<longrightarrow>
            make_pyomo_poly lib pv expr = Inl (ValueError ''{} is not a sympy polynomial'' [ArgExpr expr])) \<and>
         (objective p = expr \<longrightarrow> (\<exists>e. solve lib run self p = Inl e)) \<and>
         ((Rel k a b \<in> set (constraints p) \<or> RelConstraint (Rel k a b) \<in> set (constraints p)) \<and> sub lib a b = expr \<longrightarrow>
            (\<exists>e. solve lib run self p = Inl e))"
proof (intro conjI impI)
  show "\<exists>e. make_pyomo_poly lib pv expr = Inl e"
    by (rule make_pyomo_poly_fails [OF assms])
next
  assume "set (atoms expr) \<subseteq> dom pv"
  with assms show "make_pyomo_poly lib pv expr = Inl (ValueError ''{} is not a sympy polynomial'' [ArgExpr expr])"
    by (rule make_pyomo_poly_ValueError)
next
  assume "objective p = expr"
  with assms have "\<not> reducible lib (objective p)" by simp
  from build_model_fails_objective [OF this] show "\<exists>e. solve lib run self p = Inl e"
    by (auto dest: solve_fails_build)
next
  assume h: "(Rel k a b \<in> set (constraints p) \<or> RelConstraint (Rel k a b) \<in> set (constraints p)) \<and> sub lib a b = expr"
  with assms have nr: "\<not> reducible lib (sub lib a b)" by simp
  from h obtain c where c: "c \<in> set (constraints p)" "c = Rel k a b \<or> c = RelConstraint (Rel k a b)"
    by auto
  have "\<exists>e. add_constraint lib st c = Inl e" for st
    by (rule add_constraint_relation_fails [OF nr c(2)])
  from build_model_fails_constraint [OF this c(1)] show "\<exists>e. solve lib run self p = Inl e"
    by (auto dest: solve_fails_build)
qed

theorem not_polynomial_fails_witness:
  "\<not> reducible sample_lib abs_minus_one \<and>
   set (atoms abs_minus_one) \<subseteq> dom sample_binding \<and>
   objective nonpolynomial_problem = abs_minus_one \<and>
   Rel LessThan (Apply Abs (Symbol var_x)) (Num 1) \<in> set (constraints nonpolynomial_problem) \<and>
   sub sample_lib (Apply Abs (Symbol var_x)) (Num 1) = abs_minus_one \<and>
   make_pyomo_poly sample_lib sample_binding abs_minus_one =
     Inl (ValueError ''{} is not a sympy polynomial'' [ArgExpr abs_minus_one]) \<and>
   (\<exists>e. solve sample_lib (run_reporting optimal Map.empty) (PyomoSolver ()) nonpolynomial_problem = Inl e)"
proof -
  have h2: "set (atoms abs_minus_one) \<subseteq> dom sample_binding"
    by (simp add: abs_minus_one_def tree_sub_def sample_binding_def)
  have h3: "objective nonpolynomial_problem = abs_minus_one"
    by (simp add: nonpolynomial_problem_def)
  have h4: "Rel LessThan (Apply Abs (Symbol var_x)) (Num 1) \<in> set (constraints nonpolynomial_problem)"
    by (simp add: nonpolynomial_problem_def)
  have h5: "sub sample_lib (Apply Abs (Symbol var_x)) (Num 1) = abs_minus_one"
    by (simp add: abs_minus_one_def sample_lib_simps)
  from not_polynomial_fails [OF abs_not_reducible, of sample_binding nonpolynomial_problem
      "run_reporting optimal Map.empty" "PyomoSolver ()" LessThan "Apply Abs (Symbol var_x)" "Num 1"]
    abs_not_reducible h2 h3 h4 h5
  show ?thesis by blast
qed

end
